(* ===== verification/Prelude.thy ===== *)
theory Prelude
  imports Main
begin

text \<open>
  Shared vocabulary of the development: the association lists with which JavaScript
  objects (insertion-ordered property tables) and prom-client's per-label tables are
  modelled, the decimal rendering of numbers used by template literals and by array
  index keys, and the collection \<open>model_simps\<close> of the rewrite rules the component
  proofs share.
\<close>

named_theorems model_simps "rewrite rules shared by the component theories"

section \<open>Insertion-ordered tables\<close>

text \<open>
  Assigning a property of a JavaScript object keeps the position of an existing key
  and appends a new key at the end; prom-client's label table behaves the same way.
\<close>

fun assoc_set :: "('k \<times> 'v) list \<Rightarrow> 'k \<Rightarrow> 'v \<Rightarrow> ('k \<times> 'v) list" where
  "assoc_set [] k v = [(k, v)]"
| "assoc_set ((k', v') # ps) k v =
     (if k' = k then (k, v) # ps else (k', v') # assoc_set ps k v)"

section \<open>Decimal numerals\<close>

definition digit_char :: "nat \<Rightarrow> char" where
  "digit_char d = ''0123456789'' ! d"

fun dec_string :: "nat \<Rightarrow> string" where
  "dec_string n =
     (if n < 10 then [digit_char n] else dec_string (n div 10) @ [digit_char (n mod 10)])"

declare dec_string.simps [simp del]

definition digit_val :: "char \<Rightarrow> nat option" where
  "digit_val c = (let k = of_char c :: nat in if 48 \<le> k \<and> k < 58 then Some (k - 48) else None)"

fun parse_digits :: "nat \<Rightarrow> string \<Rightarrow> nat option" where
  "parse_digits acc [] = Some acc"
| "parse_digits acc (c # cs) =
     (case digit_val c of None \<Rightarrow> None | Some d \<Rightarrow> parse_digits (10 * acc + d) cs)"

text \<open>
  A canonical array index key: a non-empty string of digits that is the decimal
  rendering of its value (so \<open>''0''\<close> and \<open>''12''\<close>, but not \<open>''01''\<close>).
\<close>

definition index_key :: "string \<Rightarrow> nat option" where
  "index_key k =
     (if k = [] then None
      else case parse_digits 0 k of
             None \<Rightarrow> None
           | Some n \<Rightarrow> if dec_string n = k then Some n else None)"

section \<open>Lemmas on tables\<close>

lemma map_of_assoc_set [model_simps]:
  "map_of (assoc_set ps k v) = (map_of ps)(k \<mapsto> v)"
  by (induction ps) (auto simp: fun_eq_iff)

lemma assoc_set_keys_present [model_simps]:
  "k \<in> fst ` set ps \<Longrightarrow> map fst (assoc_set ps k v) = map fst ps"
  by (induction ps) force+

lemma assoc_set_keys:
  "map fst (assoc_set ps k v) = (if k \<in> fst ` set ps then map fst ps else map fst ps @ [k])"
  by (induction ps) force+

lemma assoc_set_key_set:
  "fst ` set (assoc_set ps k v) = insert k (fst ` set ps)"
  using arg_cong [OF assoc_set_keys [of ps k v], of set] by (auto split: if_splits)

lemma distinct_assoc_set [model_simps]:
  "distinct (map fst ps) \<Longrightarrow> distinct (map fst (assoc_set ps k v))"
  by (induction ps) (auto simp: assoc_set_keys)

lemma assoc_set_same [model_simps]:
  "map_of ps k = Some v \<Longrightarrow> assoc_set ps k v = ps"
  by (induction ps) force+

lemma assoc_set_twice [model_simps]:
  "assoc_set (assoc_set ps k v) k w = assoc_set ps k w"
  by (induction ps) force+

lemma assoc_set_length:
  "length (assoc_set ps k v) = (if k \<in> fst ` set ps then length ps else Suc (length ps))"
  by (induction ps) force+

section \<open>Lemmas on lists\<close>

lemma count_list_distinct_mem: "distinct xs \<Longrightarrow> x \<in> set xs \<Longrightarrow> count_list xs x = 1"
  by (induction xs) auto

lemma find_append_list:
  "find P (xs @ ys) = (case find P xs of None \<Rightarrow> find P ys | Some x \<Rightarrow> Some x)"
  by (induction xs) auto

lemma list_all_update [model_simps]: "list_all P xs \<Longrightarrow> P x \<Longrightarrow> list_all P (xs[i := x])"
  by (induction xs arbitrary: i) (auto split: nat.splits)

section \<open>Lemmas on decimal numerals\<close>

lemma digit_val_digit_char [model_simps]: "d < 10 \<Longrightarrow> digit_val (digit_char d) = Some d"
  by (auto simp: digit_val_def digit_char_def less_Suc_eq numeral_eq_Suc)

text \<open>The unfolding that evaluates a decimal rendering of a numeral.\<close>

lemmas dec_string_eval = dec_string.simps digit_char_def

lemma parse_digits_append [model_simps]:
  "parse_digits acc (xs @ ys) =
     (case parse_digits acc xs of None \<Rightarrow> None | Some a \<Rightarrow> parse_digits a ys)"
  by (induction xs arbitrary: acc) (auto split: option.splits)

lemma dec_string_nonempty [model_simps]: "dec_string n \<noteq> []"
  by (subst dec_string.simps) simp

lemma parse_dec_string_acc:
  "parse_digits acc (dec_string n) = Some (acc * 10 ^ length (dec_string n) + n)"
proof (induction n arbitrary: acc rule: dec_string.induct)
  case (1 n)
  show ?case
  proof (cases "n < 10")
    case True
    then show ?thesis by (subst (1 2) dec_string.simps) (simp add: digit_val_digit_char)
  next
    case False
    then have "dec_string n = dec_string (n div 10) @ [digit_char (n mod 10)]"
      by (subst dec_string.simps) simp
    with False "1.IH" show ?thesis
      by (simp add: parse_digits_append digit_val_digit_char algebra_simps)
  qed
qed

lemma parse_dec_string: "parse_digits 0 (dec_string n) = Some n"
  using parse_dec_string_acc [of 0 n] by simp

text \<open>Printing an index and reading it back as a property key is the identity.\<close>

lemma index_key_dec_string [model_simps]: "index_key (dec_string n) = Some n"
  by (simp add: index_key_def parse_dec_string dec_string_nonempty)

lemma dec_string_0 [model_simps]: "dec_string 0 = ''0''"
  by (simp add: dec_string_eval)

lemma index_key_0 [simp, model_simps]: "index_key ''0'' = Some 0"
  using index_key_dec_string [of 0] by (simp only: dec_string_0)

lemma index_key_Some: "index_key k = Some n \<Longrightarrow> k = dec_string n"
  by (auto simp: index_key_def split: if_splits option.splits)

end
