(* ===== verification/JsValue.thy ===== *)
theory JsValue
  imports Prelude
begin

text \<open>
  The values that \<open>yaml.load\<close> (js-yaml) produces and \<open>yaml.dump\<close> consumes, as the
  code in \<open>src/index.js\<close> reads and writes them: \<open>undefined\<close>, \<open>null\<close>,
  booleans, numbers (integers here), strings, arrays and plain objects with their
  insertion-ordered keys. Property reads and writes follow JavaScript's rules for the
  cases the program meets: reading a property of \<open>null\<close> or \<open>undefined\<close> throws a
  \<open>TypeError\<close> (the value \<open>None\<close>), reading a missing property gives
  \<open>undefined\<close>, assigning a property of a primitive is silently ignored (the
  CommonJS module runs in sloppy mode). A value stands for what \<open>yaml.dump\<close>
  serialises: a named (non-index) property assigned to an array lives in memory but is
  not part of the dumped document, so the model drops it.
\<close>

datatype jval =
    JUndef
  | JNull
  | JBool bool
  | JNum int
  | JStr string
  | JArr "jval list"
  | JObj "(string \<times> jval) list"

section \<open>Truthiness and type tests\<close>

fun truthy :: "jval \<Rightarrow> bool" where
  "truthy JUndef = False"
| "truthy JNull = False"
| "truthy (JBool b) = b"
| "truthy (JNum n) = (n \<noteq> 0)"
| "truthy (JStr s) = (s \<noteq> [])"
| "truthy (JArr xs) = True"
| "truthy (JObj ps) = True"

text \<open>\<open>Array.isArray\<close>.\<close>

fun is_array :: "jval \<Rightarrow> bool" where
  "is_array (JArr xs) = True"
| "is_array v = False"

text \<open>Values that keep an assigned property: objects and arrays.\<close>

fun obj_like :: "jval \<Rightarrow> bool" where
  "obj_like (JObj ps) = True"
| "obj_like (JArr xs) = True"
| "obj_like v = False"

fun arr_elems :: "jval \<Rightarrow> jval list" where
  "arr_elems (JArr xs) = xs"
| "arr_elems v = []"

section \<open>Property access\<close>

text \<open>\<open>v[k]\<close> and \<open>v.k\<close>; \<open>None\<close> is the \<open>TypeError\<close> of a read on
  \<open>null\<close> or \<open>undefined\<close>.\<close>

fun js_get :: "jval \<Rightarrow> string \<Rightarrow> jval option" where
  "js_get JUndef k = None"
| "js_get JNull k = None"
| "js_get (JBool b) k = Some JUndef"
| "js_get (JNum n) k = Some JUndef"
| "js_get (JStr s) k =
     Some (if k = ''length'' then JNum (int (length s))
           else case index_key k of
                  Some i \<Rightarrow> if i < length s then JStr [s ! i] else JUndef
                | None \<Rightarrow> JUndef)"
| "js_get (JArr xs) k =
     Some (if k = ''length'' then JNum (int (length xs))
           else case index_key k of
                  Some i \<Rightarrow> if i < length xs then xs ! i else JUndef
                | None \<Rightarrow> JUndef)"
| "js_get (JObj ps) k = Some (case map_of ps k of Some v \<Rightarrow> v | None \<Rightarrow> JUndef)"

text \<open>\<open>v.k = x\<close>; \<open>None\<close> is the \<open>TypeError\<close> of an assignment to a property of
  \<open>null\<close> or \<open>undefined\<close>. Assigning index \<open>i\<close> past the end of an array fills
  the gap with holes, which read as \<open>undefined\<close>.\<close>

fun js_set :: "jval \<Rightarrow> string \<Rightarrow> jval \<Rightarrow> jval option" where
  "js_set JUndef k x = None"
| "js_set JNull k x = None"
| "js_set (JObj ps) k x = Some (JObj (assoc_set ps k x))"
| "js_set (JArr xs) k x =
     Some (case index_key k of
             Some i \<Rightarrow> if i < length xs then JArr (xs[i := x])
                       else JArr (xs @ replicate (i - length xs) JUndef @ [x])
           | None \<Rightarrow> JArr xs)"
| "js_set v k x = Some v"

section \<open>String conversion\<close>

text \<open>\<open>String(v)\<close>, as a template literal \<open>`${v}`\<close> applies it, for the
  primitive values the program interpolates.\<close>

fun js_to_string :: "jval \<Rightarrow> string" where
  "js_to_string JUndef = ''undefined''"
| "js_to_string JNull = ''null''"
| "js_to_string (JBool b) = (if b then ''true'' else ''false'')"
| "js_to_string (JNum n) = (if n < 0 then ''-'' @ dec_string (nat (- n)) else dec_string (nat n))"
| "js_to_string (JStr s) = s"
| "js_to_string (JArr xs) = ''[array]''"
| "js_to_string (JObj ps) = ''[object Object]''"

section \<open>Array.prototype.find\<close>

text \<open>
  \<open>xs.find(p)\<close> with a callback that may throw: \<open>None\<close> is the exception of the
  callback, \<open>Some None\<close> that no element satisfies it, \<open>Some (Some i)\<close> the index of
  the first element that does. The callback is called in order and stops at the first
  match, so elements after it are never inspected.
\<close>

fun js_find :: "(jval \<Rightarrow> bool option) \<Rightarrow> jval list \<Rightarrow> nat option option" where
  "js_find p [] = Some None"
| "js_find p (x # xs) =
     (case p x of
        None \<Rightarrow> None
      | Some True \<Rightarrow> Some (Some 0)
      | Some False \<Rightarrow> map_option (map_option Suc) (js_find p xs))"

section \<open>Lemmas\<close>

lemma js_get_obj [model_simps]:
  "js_get (JObj ps) k = Some (case map_of ps k of Some v \<Rightarrow> v | None \<Rightarrow> JUndef)"
  by simp

lemma js_get_set_obj [model_simps]:
  "js_get (JObj (assoc_set ps k x)) k' = (if k' = k then Some x else js_get (JObj ps) k')"
  by (simp add: map_of_assoc_set)

lemma index_key_length [model_simps]: "index_key ''length'' = None"
  by (simp add: index_key_def digit_val_def)

lemma dec_string_not_length [model_simps]: "dec_string i \<noteq> ''length''"
  using index_key_dec_string [of i] index_key_length by auto

lemma js_get_arr_index [model_simps]:
  "i < length xs \<Longrightarrow> js_get (JArr xs) (dec_string i) = Some (xs ! i)"
  by (simp add: index_key_dec_string dec_string_not_length)

lemma js_set_arr_index [model_simps]:
  "i < length xs \<Longrightarrow> js_set (JArr xs) (dec_string i) x = Some (JArr (xs[i := x]))"
  by (simp add: index_key_dec_string)

lemma truthy_defined: "truthy v \<Longrightarrow> js_get v k \<noteq> None"
  by (cases v) auto

lemma js_get_None_iff [model_simps]: "js_get v k = None \<longleftrightarrow> v = JUndef \<or> v = JNull"
  by (cases v) auto

lemma js_find_SomeD:
  assumes "js_find p xs = Some (Some i)"
  shows "i < length xs \<and> p (xs ! i) = Some True \<and> (\<forall>j < i. p (xs ! j) = Some False)"
  using assms
proof (induction xs arbitrary: i)
  case Nil
  then show ?case by simp
next
  case (Cons x xs)
  show ?case
  proof (cases i)
    case 0
    with Cons.prems show ?thesis by (auto split: option.splits bool.splits)
  next
    case (Suc i')
    with Cons.prems have "p x = Some False" and "js_find p xs = Some (Some i')"
      by (auto split: option.splits bool.splits)
    with Cons.IH Suc show ?thesis by (auto simp: less_Suc_eq_0_disj)
  qed
qed

lemma js_find_None_iff:
  "js_find p xs = Some None \<longleftrightarrow> (\<forall>x \<in> set xs. p x = Some False)"
  by (induction xs) (auto split: option.splits bool.splits)

lemma obj_like_truthy [model_simps]: "obj_like v \<Longrightarrow> truthy v"
  by (cases v) auto

lemma index_key_inj: "index_key k = Some i \<Longrightarrow> index_key k' = Some i \<Longrightarrow> k = k'"
  using index_key_Some by blast

text \<open>
  Writing an object-valued property and reading it back: the read gives the written
  value, writing it again changes nothing, and every other property reads as before.
  This is the write-back step along the path the mutator updates.
\<close>

lemma js_set_obj_like_slot:
  assumes get: "js_get v k = Some y" and y: "obj_like y" and set: "js_set v k x = Some v'"
  shows "js_get v' k = Some x \<and> js_set v' k x = Some v' \<and>
         (\<forall>k'. k' \<noteq> k \<longrightarrow> js_get v' k' = js_get v k')"
proof (cases v)
  case (JObj ps)
  with set have "v' = JObj (assoc_set ps k x)" by simp
  with JObj show ?thesis by (simp add: map_of_assoc_set assoc_set_twice)
next
  case (JArr xs)
  with get y obtain i where i: "index_key k = Some i" "i < length xs" "k \<noteq> ''length''"
    by (auto split: if_splits option.splits)
  with JArr set have v': "v' = JArr (xs[i := x])" by simp
  have other: "js_get v' k' = js_get v k'" if "k' \<noteq> k" for k'
  proof (cases "index_key k'")
    case (Some j)
    with that i have "j \<noteq> i" using index_key_inj by blast
    with Some v' JArr show ?thesis by simp
  next
    case None
    with v' JArr show ?thesis by simp
  qed
  from i v' have "js_get v' k = Some x \<and> js_set v' k x = Some v'" by simp
  with other show ?thesis by blast
next
  case (JStr s)
  with get y show ?thesis by (auto split: if_splits option.splits)
qed (use get y in auto)

lemma js_get_obj_like_parent: "js_get v k = Some y \<Longrightarrow> obj_like y \<Longrightarrow> obj_like v"
  by (cases v) (auto split: if_splits option.splits)

lemma js_set_obj_like: "obj_like v \<Longrightarrow> js_set v k x = Some v' \<Longrightarrow> obj_like v'"
  by (cases v) (auto split: option.splits if_splits)

lemma js_set_obj_like_Some: "obj_like v \<Longrightarrow> \<exists>v'. js_set v k x = Some v'"
  by (cases v) auto

lemma js_find_skip:
  "\<forall>x \<in> set xs. p x = Some False \<Longrightarrow>
   js_find p (xs @ ys) = map_option (map_option (\<lambda>i. length xs + i)) (js_find p ys)"
proof (induction xs)
  case Nil
  show ?case by (cases "js_find p ys") (auto simp: option.map_ident)
next
  case (Cons x xs)
  then show ?case by (cases "js_find p ys") (auto simp: option.map_comp comp_def)
qed

text \<open>The search only depends on the prefix up to the element it finds.\<close>

lemma js_find_update_found:
  assumes "js_find p xs = Some (Some i)" and "p y = Some True"
  shows "js_find p (xs[i := y]) = Some (Some i)"
  using assms
proof (induction xs arbitrary: i)
  case Nil
  then show ?case by simp
next
  case (Cons x xs)
  show ?case
  proof (cases i)
    case 0
    with Cons.prems show ?thesis by simp
  next
    case (Suc i')
    with Cons.prems have "p x = Some False" and "js_find p xs = Some (Some i')"
      by (auto split: option.splits bool.splits)
    with Cons.IH Cons.prems Suc show ?thesis by simp
  qed
qed

section \<open>Properties\<close>





end
