(* ===== verification/ConfigMutator.thy ===== *)
theory ConfigMutator
  imports JsValue
begin

text \<open>
  The document mutation of \<open>updatePrometheusYML\<close> (\<open>src/index.js\<close>, lines
  122--145): from the loaded configuration it finds the first scrape job named
  \<open>prometheus\<close>, makes sure it has a first target group with a target list, and
  appends the instance's address unless it is already listed. The file I/O around it
  (lines 114--120 and 147--161) is in \<open>Registration\<close>. The result is one of three
  completions of the source: an uncaught \<open>TypeError\<close> (\<open>MThrow\<close>), one of the two
  early \<open>return\<close>s after \<open>console.error\<close> (\<open>MReturn\<close>), or the mutated
  document with the flag of the \<open>if\<close> on line 140 (\<open>MDone\<close>).
\<close>

datatype abort = NoScrapeConfigs | JobNotFound

datatype mutation = MThrow | MReturn abort | MDone bool jval

text \<open>The callback of \<open>find\<close> on line 126: \<open>sc.job_name === "prometheus"\<close>.\<close>

definition is_prometheus_job :: "jval \<Rightarrow> bool option" where
  "is_prometheus_job sc = map_option (\<lambda>v. v = JStr ''prometheus'') (js_get sc ''job_name'')"

definition empty_target_group :: jval where
  "empty_target_group = JObj [(''targets'', JArr [])]"

text \<open>Lines 132--134: a falsy or empty \<open>static_configs\<close> is replaced by one empty
  target group. The \<open>||\<close> does not read \<open>length\<close> of a falsy value.\<close>

definition ensure_static_configs :: "jval \<Rightarrow> jval option" where
  "ensure_static_configs job =
     (case js_get job ''static_configs'' of
        None \<Rightarrow> None
      | Some groups \<Rightarrow>
          if \<not> truthy groups \<or> js_get groups ''length'' = Some (JNum 0)
          then js_set job ''static_configs'' (JArr [empty_target_group])
          else Some job)"

text \<open>Lines 136--138, and the read of \<open>staticConfig.targets\<close> on line 140: the
  target list the code goes on with. A missing or non-array \<open>targets\<close> is reset to
  \<open>[]\<close>; on a primitive the assignment is ignored and \<open>.includes\<close> then throws; on
  \<open>null\<close> or \<open>undefined\<close> the first read throws.\<close>

definition group_targets :: "jval \<Rightarrow> jval list option" where
  "group_targets sc =
     (case js_get sc ''targets'' of
        None \<Rightarrow> None
      | Some (JArr xs) \<Rightarrow> Some xs
      | Some v \<Rightarrow> (case sc of JObj ps \<Rightarrow> Some [] | JArr ys \<Rightarrow> Some [] | _ \<Rightarrow> None))"

text \<open>Lines 140--145: \<open>includes\<close> is an exact comparison of strings; the flag is
  whether the target was pushed.\<close>

definition add_target :: "string \<Rightarrow> jval list \<Rightarrow> bool \<times> jval list" where
  "add_target t xs = (if JStr t \<in> set xs then (False, xs) else (True, xs @ [JStr t]))"

text \<open>Lines 131--145 on the job found by \<open>find\<close>: the in-place mutations of the
  source are written back along the path config \<open>\<rightarrow>\<close> job \<open>\<rightarrow>\<close>
  \<open>static_configs\<close> \<open>\<rightarrow>\<close> \<open>[0]\<close> \<open>\<rightarrow>\<close> \<open>targets\<close>, which is the only path
  the source mutates.\<close>

definition register_in_job :: "string \<Rightarrow> jval \<Rightarrow> jval list \<Rightarrow> nat \<Rightarrow> mutation" where
  "register_in_job t config jobs i =
     (case ensure_static_configs (jobs ! i) of
        None \<Rightarrow> MThrow
      | Some job \<Rightarrow>
     (case js_get job ''static_configs'' of
        None \<Rightarrow> MThrow
      | Some groups \<Rightarrow>
     (case js_get groups ''0'' of
        None \<Rightarrow> MThrow
      | Some sc \<Rightarrow>
     (case group_targets sc of
        None \<Rightarrow> MThrow
      | Some xs \<Rightarrow>
     (case add_target t xs of
        (added, xs') \<Rightarrow>
     (case Option.bind (js_set sc ''targets'' (JArr xs')) (\<lambda>sc'.
           Option.bind (js_set groups ''0'' sc') (\<lambda>groups'.
           Option.bind (js_set job ''static_configs'' groups') (\<lambda>job'.
             js_set config ''scrape_configs'' (JArr (jobs[i := job']))))) of
        None \<Rightarrow> MThrow
      | Some config' \<Rightarrow> MDone added config'))))))"

text \<open>Lines 122--130, then the job's update.\<close>

definition update_config :: "string \<Rightarrow> jval \<Rightarrow> mutation" where
  "update_config t config =
     (case js_get config ''scrape_configs'' of
        None \<Rightarrow> MThrow
      | Some scs \<Rightarrow>
          if \<not> truthy scs \<or> \<not> is_array scs then MReturn NoScrapeConfigs
          else (case js_find is_prometheus_job (arr_elems scs) of
                  None \<Rightarrow> MThrow
                | Some None \<Rightarrow> MReturn JobNotFound
                | Some (Some i) \<Rightarrow> register_in_job t config (arr_elems scs) i))"

section \<open>Well-formed documents and the abstract registration\<close>

text \<open>
  The schema of the spec (section 6): a top-level \<open>scrape_configs\<close> list of job
  objects, each with a string \<open>job_name\<close> and an optional \<open>static_configs\<close> list
  of target groups, each with an optional \<open>targets\<close> list of distinct strings. Keys
  are distinct, as js-yaml refuses duplicate keys.
\<close>

fun is_str :: "jval \<Rightarrow> bool" where
  "is_str (JStr s) = True"
| "is_str v = False"

fun str_of :: "jval \<Rightarrow> string" where
  "str_of (JStr s) = s"
| "str_of v = []"

fun wf_targets :: "jval \<Rightarrow> bool" where
  "wf_targets (JArr xs) = (list_all is_str xs \<and> distinct xs)"
| "wf_targets v = False"

fun wf_group :: "jval \<Rightarrow> bool" where
  "wf_group (JObj ps) = (distinct (map fst ps) \<and>
     (case map_of ps ''targets'' of None \<Rightarrow> True | Some v \<Rightarrow> wf_targets v))"
| "wf_group v = False"

fun wf_job :: "jval \<Rightarrow> bool" where
  "wf_job (JObj ps) = (distinct (map fst ps) \<and>
     (case map_of ps ''job_name'' of Some (JStr n) \<Rightarrow> True | _ \<Rightarrow> False) \<and>
     (case map_of ps ''static_configs'' of
        None \<Rightarrow> True | Some (JArr gs) \<Rightarrow> list_all wf_group gs | Some v \<Rightarrow> False))"
| "wf_job v = False"

fun wf_doc :: "jval \<Rightarrow> bool" where
  "wf_doc (JObj ps) = (distinct (map fst ps) \<and>
     (case map_of ps ''scrape_configs'' of Some (JArr js) \<Rightarrow> list_all wf_job js | _ \<Rightarrow> False))"
| "wf_doc v = False"

text \<open>The abstract view: each job as its name and the targets of its groups.\<close>

type_synonym job_abs = "string \<times> string list list"

definition group_abs :: "jval \<Rightarrow> string list" where
  "group_abs g = (case js_get g ''targets'' of Some (JArr xs) \<Rightarrow> map str_of xs | _ \<Rightarrow> [])"

definition job_abs :: "jval \<Rightarrow> job_abs" where
  "job_abs j =
     (case js_get j ''job_name'' of Some v \<Rightarrow> str_of v | None \<Rightarrow> [],
      case js_get j ''static_configs'' of Some (JArr gs) \<Rightarrow> map group_abs gs | _ \<Rightarrow> [])"

definition doc_abs :: "jval \<Rightarrow> job_abs list" where
  "doc_abs d = (case js_get d ''scrape_configs'' of Some (JArr js) \<Rightarrow> map job_abs js | _ \<Rightarrow> [])"

text \<open>
  The contract of \<open>registerTarget\<close> (spec 4.2, steps 3--6) on the abstract view: in
  the first job named \<open>prometheus\<close>, create one empty group if there is none, then add
  the target to the first group unless it is there.
\<close>

definition insert_target :: "string \<Rightarrow> string list \<Rightarrow> string list" where
  "insert_target t ts = (if t \<in> set ts then ts else ts @ [t])"

fun register_job_abs :: "string \<Rightarrow> string list list \<Rightarrow> string list list" where
  "register_job_abs t [] = [[t]]"
| "register_job_abs t (g # gs) = insert_target t g # gs"

definition register_job :: "string \<Rightarrow> job_abs \<Rightarrow> job_abs" where
  "register_job t j = (fst j, register_job_abs t (snd j))"

fun register_abs :: "string \<Rightarrow> job_abs list \<Rightarrow> job_abs list" where
  "register_abs t [] = []"
| "register_abs t (j # js) =
     (if fst j = ''prometheus'' then register_job t j # js else j # register_abs t js)"

text \<open>The targets the collector scrapes for this job: the first group of the first
  job named \<open>prometheus\<close>.\<close>

definition first_group :: "string list list \<Rightarrow> string list" where
  "first_group gs = (case gs of [] \<Rightarrow> [] | g # _ \<Rightarrow> g)"

fun prom_targets :: "job_abs list \<Rightarrow> string list" where
  "prom_targets [] = []"
| "prom_targets (j # js) = (if fst j = ''prometheus'' then first_group (snd j) else prom_targets js)"

section \<open>Example documents\<close>

text \<open>The configuration of the scenarios of the spec (section 8): one job
  \<open>prometheus\<close> whose first target group lists \<open>10.0.0.1:8000\<close>.\<close>

definition prom_doc :: "jval list \<Rightarrow> jval" where
  "prom_doc ts = JObj [(''scrape_configs'', JArr [JObj [(''job_name'', JStr ''prometheus''),
     (''static_configs'', JArr [JObj [(''targets'', JArr ts)]])]])]"

section \<open>Lemmas on the steps of the mutation\<close>

lemma index_key_names [simp, model_simps]:
  "index_key ''targets'' = None" "index_key ''static_configs'' = None"
  "index_key ''scrape_configs'' = None" "index_key ''job_name'' = None"
  by (simp_all add: index_key_def digit_val_def)

lemma is_prometheus_job_obj: "is_prometheus_job v = Some True \<Longrightarrow> \<exists>ps. v = JObj ps"
  by (cases v) (auto simp: is_prometheus_job_def split: if_splits option.splits)

lemma group_targets_obj_like: "group_targets sc = Some xs \<Longrightarrow> obj_like sc"
  by (cases sc) (auto simp: group_targets_def split: jval.splits)

lemma add_target_stable [model_simps]:
  "add_target t (snd (add_target t xs)) = (False, snd (add_target t xs))"
  by (simp add: add_target_def)

text \<open>Running the target update again on the group it produced writes the same group:
  an object now lists the target; an array group never keeps the assigned list.\<close>

lemma group_rerun:
  assumes "group_targets sc = Some xs"
    and "js_set sc ''targets'' (JArr (snd (add_target t xs))) = Some sc'"
  obtains ys where "group_targets sc' = Some ys"
    and "js_set sc' ''targets'' (JArr (snd (add_target t ys))) = Some sc'"
proof -
  from assms(1) have "obj_like sc" by (rule group_targets_obj_like)
  then consider ps where "sc = JObj ps" | zs where "sc = JArr zs"
    by (cases sc) auto
  then show ?thesis
  proof cases
    case 1
    let ?ys = "snd (add_target t xs)"
    from 1 assms(2) have "sc' = JObj (assoc_set ps ''targets'' (JArr ?ys))" by simp
    then have "group_targets sc' = Some ?ys"
      and "js_set sc' ''targets'' (JArr (snd (add_target t ?ys))) = Some sc'"
      by (simp_all add: group_targets_def map_of_assoc_set assoc_set_twice add_target_stable)
    then show ?thesis by (rule that)
  next
    case 2
    with assms(2) have "sc' = sc" by (simp add: index_key_names)
    with 2 show ?thesis by (intro that [of "[]"]) (simp_all add: group_targets_def index_key_names)
  qed
qed

lemma ensure_static_configs_result:
  assumes "ensure_static_configs job0 = Some job" and "job0 = JObj ps"
  shows "\<exists>groups. js_get job ''static_configs'' = Some groups \<and> truthy groups \<and>
           js_get groups ''length'' \<noteq> Some (JNum 0)"
    and "\<forall>k. k \<noteq> ''static_configs'' \<longrightarrow> js_get job k = js_get job0 k"
  using assms
  by (auto simp: ensure_static_configs_def map_of_assoc_set split: if_splits option.splits)

lemma ensure_static_configs_stable:
  "js_get job ''static_configs'' = Some groups \<Longrightarrow> truthy groups \<Longrightarrow>
   js_get groups ''length'' \<noteq> Some (JNum 0) \<Longrightarrow> ensure_static_configs job = Some job"
  by (simp add: ensure_static_configs_def)

lemma update_config_MDoneE:
  assumes "update_config t d = MDone a d'"
  obtains jobs i job groups sc xs xs' sc' groups' job' where
    "js_get d ''scrape_configs'' = Some (JArr jobs)"
    "js_find is_prometheus_job jobs = Some (Some i)"
    "ensure_static_configs (jobs ! i) = Some job"
    "js_get job ''static_configs'' = Some groups"
    "js_get groups ''0'' = Some sc" "group_targets sc = Some xs"
    "add_target t xs = (a, xs')"
    "js_set sc ''targets'' (JArr xs') = Some sc'"
    "js_set groups ''0'' sc' = Some groups'"
    "js_set job ''static_configs'' groups' = Some job'"
    "js_set d ''scrape_configs'' (JArr (jobs[i := job'])) = Some d'"
proof -
  from assms obtain scs where scs: "js_get d ''scrape_configs'' = Some scs"
    and arr: "truthy scs" "is_array scs"
    and reg: "(case js_find is_prometheus_job (arr_elems scs) of None \<Rightarrow> MThrow
              | Some None \<Rightarrow> MReturn JobNotFound
              | Some (Some i) \<Rightarrow> register_in_job t d (arr_elems scs) i) = MDone a d'"
    by (auto simp: update_config_def split: option.splits if_splits)
  from arr obtain jobs where jobs: "scs = JArr jobs" by (cases scs) auto
  from reg jobs show ?thesis using scs
    by (auto simp: register_in_job_def intro: that split: option.splits prod.splits
        Option.bind_splits)
qed

lemma update_config_MDoneI:
  assumes "js_get d ''scrape_configs'' = Some (JArr jobs)"
    "js_find is_prometheus_job jobs = Some (Some i)"
    "ensure_static_configs (jobs ! i) = Some job"
    "js_get job ''static_configs'' = Some groups"
    "js_get groups ''0'' = Some sc" "group_targets sc = Some xs"
    "add_target t xs = (a, xs')"
    "js_set sc ''targets'' (JArr xs') = Some sc'"
    "js_set groups ''0'' sc' = Some groups'"
    "js_set job ''static_configs'' groups' = Some job'"
    "js_set d ''scrape_configs'' (JArr (jobs[i := job'])) = Some d'"
  shows "update_config t d = MDone a d'"
  using assms by (simp add: update_config_def register_in_job_def)

text \<open>The unfolding that evaluates the mutation on a concrete document.\<close>

lemmas update_config_eval = update_config_def register_in_job_def is_prometheus_job_def
  ensure_static_configs_def group_targets_def add_target_def

section \<open>Idempotence\<close>

text \<open>A second run on the document a run produced completes and writes the same
  document back.\<close>

text \<open>The job-level half of a second run: the job the first run wrote is still the
  \<open>prometheus\<close> job, needs no new group, and leads to the same group, whose targets
  the second run finds again.\<close>

lemma job_rerun:
  assumes prom: "is_prometheus_job j = Some True" and ens: "ensure_static_configs j = Some job"
    and grp: "js_get job ''static_configs'' = Some groups"
    and sc: "js_get groups ''0'' = Some sc" and tg: "group_targets sc = Some xs"
    and set_sc: "js_set sc ''targets'' (JArr (snd (add_target t xs))) = Some sc'"
    and set_grp: "js_set groups ''0'' sc' = Some groups'"
    and set_job: "js_set job ''static_configs'' groups' = Some job'"
  shows "is_prometheus_job job' = Some True \<and> ensure_static_configs job' = Some job' \<and>
         js_get job' ''static_configs'' = Some groups' \<and> js_get groups' ''0'' = Some sc' \<and>
         js_set groups' ''0'' sc' = Some groups' \<and> js_set job' ''static_configs'' groups' = Some job' \<and>
         (\<exists>ys. group_targets sc' = Some ys \<and> js_set sc' ''targets'' (JArr (snd (add_target t ys))) = Some sc')"
proof -
  from prom obtain ps where job0: "j = JObj ps" by (blast dest: is_prometheus_job_obj)
  from ensure_static_configs_result [OF ens job0] grp
  have len: "truthy groups" "js_get groups ''length'' \<noteq> Some (JNum 0)"
    and keys: "\<forall>k. k \<noteq> ''static_configs'' \<longrightarrow> js_get job k = js_get j k"
    by auto
  from tg have sc_like: "obj_like sc" by (rule group_targets_obj_like)
  with sc have grp_like: "obj_like groups" by (rule js_get_obj_like_parent)
  from js_set_obj_like_slot [OF sc sc_like set_grp]
  have sc': "js_get groups' ''0'' = Some sc'" and grp_fix: "js_set groups' ''0'' sc' = Some groups'"
    and len': "js_get groups' ''length'' = js_get groups ''length''" by auto
  from js_set_obj_like_slot [OF grp grp_like set_job]
  have grp': "js_get job' ''static_configs'' = Some groups'"
    and job_fix: "js_set job' ''static_configs'' groups' = Some job'"
    and name': "js_get job' ''job_name'' = js_get job ''job_name''" by auto
  have prom': "is_prometheus_job job' = Some True"
    using prom name' keys by (simp add: is_prometheus_job_def)
  have "obj_like groups'" using grp_like set_grp by (rule js_set_obj_like)
  then have ens': "ensure_static_configs job' = Some job'"
    using grp' len len' by (simp add: ensure_static_configs_stable obj_like_truthy)
  from tg set_sc have "\<exists>ys. group_targets sc' = Some ys \<and>
      js_set sc' ''targets'' (JArr (snd (add_target t ys))) = Some sc'"
    by (blast intro: group_rerun)
  with prom' ens' grp' sc' grp_fix job_fix show ?thesis by blast
qed

lemma update_config_rerun:
  assumes first: "update_config t d = MDone a d'"
  shows "\<exists>a'. update_config t d' = MDone a' d'"
proof -
  obtain jobs i job groups sc xs xs' sc' groups' job' where
    scs: "js_get d ''scrape_configs'' = Some (JArr jobs)" and
    found: "js_find is_prometheus_job jobs = Some (Some i)" and
    ens: "ensure_static_configs (jobs ! i) = Some job" and
    grp: "js_get job ''static_configs'' = Some groups" and
    sc: "js_get groups ''0'' = Some sc" and tg: "group_targets sc = Some xs" and
    add: "add_target t xs = (a, xs')" and
    set_sc: "js_set sc ''targets'' (JArr xs') = Some sc'" and
    set_grp: "js_set groups ''0'' sc' = Some groups'" and
    set_job: "js_set job ''static_configs'' groups' = Some job'" and
    set_d: "js_set d ''scrape_configs'' (JArr (jobs[i := job'])) = Some d'"
    using first by (rule update_config_MDoneE)
  from found have i: "i < length jobs" and prom: "is_prometheus_job (jobs ! i) = Some True"
    by (auto dest: js_find_SomeD)
  from add set_sc have set_sc': "js_set sc ''targets'' (JArr (snd (add_target t xs))) = Some sc'" by simp
  obtain ys where prom': "is_prometheus_job job' = Some True" and ens': "ensure_static_configs job' = Some job'"
    and grp': "js_get job' ''static_configs'' = Some groups'" and sc': "js_get groups' ''0'' = Some sc'"
    and grp_fix: "js_set groups' ''0'' sc' = Some groups'"
    and job_fix: "js_set job' ''static_configs'' groups' = Some job'"
    and tg': "group_targets sc' = Some ys"
    and sc_fix: "js_set sc' ''targets'' (JArr (snd (add_target t ys))) = Some sc'"
    using job_rerun [OF prom ens grp sc tg set_sc' set_grp set_job] by blast
  from js_set_obj_like_slot [OF scs _ set_d]
  have scs': "js_get d' ''scrape_configs'' = Some (JArr (jobs[i := job']))"
    and d_fix: "js_set d' ''scrape_configs'' (JArr (jobs[i := job'])) = Some d'" by auto
  have found': "js_find is_prometheus_job (jobs[i := job']) = Some (Some i)"
    using found prom' by (rule js_find_update_found)
  have "update_config t d' = MDone (fst (add_target t ys)) d'"
    using d_fix ens' i
    by (intro update_config_MDoneI [OF scs' found' _ grp' sc' tg' _ sc_fix grp_fix job_fix]) simp_all
  then show ?thesis by blast
qed

text \<open>
  C1. Registering an address twice leaves the document of the first registration: the
  second run completes (it does not throw) and writes back the same document. This is
  the idempotence the spec requires of \<open>registerTarget\<close>; it holds for every
  document the first run accepts, not only for well-formed ones.
\<close>

theorem update_config_idempotent:
  "update_config t d = MDone a d' \<Longrightarrow> \<exists>a'. update_config t d' = MDone a' d'"
  by (rule update_config_rerun)

theorem update_config_idempotent_witness:
  "update_config ''10.0.0.2:8000'' (prom_doc [JStr ''10.0.0.1:8000'']) =
     MDone True (prom_doc [JStr ''10.0.0.1:8000'', JStr ''10.0.0.2:8000'']) \<and>
   (\<exists>a'. update_config ''10.0.0.2:8000'' (prom_doc [JStr ''10.0.0.1:8000'', JStr ''10.0.0.2:8000'']) =
     MDone a' (prom_doc [JStr ''10.0.0.1:8000'', JStr ''10.0.0.2:8000'']))"
proof -
  have first: "update_config ''10.0.0.2:8000'' (prom_doc [JStr ''10.0.0.1:8000'']) =
     MDone True (prom_doc [JStr ''10.0.0.1:8000'', JStr ''10.0.0.2:8000''])"
    by (simp add: update_config_eval prom_doc_def)
  show ?thesis using first update_config_idempotent [OF first] by blast
qed

section \<open>Preservation\<close>



section \<open>Well-formed documents: lemmas\<close>

lemma str_member: "list_all is_str xs \<Longrightarrow> (JStr t \<in> set xs) = (t \<in> set (map str_of xs))"
proof (induction xs)
  case (Cons x xs)
  then show ?case by (cases x) auto
qed simp

lemma distinct_str_of: "list_all is_str xs \<Longrightarrow> distinct xs \<Longrightarrow> distinct (map str_of xs)"
proof (induction xs)
  case (Cons x xs)
  then obtain s where x: "x = JStr s" by (cases x) auto
  with Cons show ?case using str_member [of xs s] by auto
qed simp

lemma add_target_abs:
  "list_all is_str xs \<Longrightarrow> map str_of (snd (add_target t xs)) = insert_target t (map str_of xs)"
  by (simp add: add_target_def insert_target_def str_member)

lemma add_target_flag:
  "list_all is_str xs \<Longrightarrow> fst (add_target t xs) = (t \<notin> set (map str_of xs))"
  by (simp add: add_target_def str_member)

lemma add_target_wf:
  "list_all is_str xs \<Longrightarrow> distinct xs \<Longrightarrow>
   list_all is_str (snd (add_target t xs)) \<and> distinct (snd (add_target t xs))"
  by (simp add: add_target_def)

lemma wf_group_targets:
  assumes "wf_group g"
  obtains xs where "group_targets g = Some xs" "list_all is_str xs" "distinct xs"
    "group_abs g = map str_of xs"
proof (cases g)
  case (JObj ps)
  show ?thesis
  proof (cases "map_of ps ''targets''")
    case None
    with JObj show ?thesis by (intro that [of "[]"]) (simp_all add: group_targets_def group_abs_def)
  next
    case (Some v)
    with assms JObj obtain xs where "v = JArr xs" "list_all is_str xs" "distinct xs"
      by (cases v) auto
    with Some JObj show ?thesis by (intro that [of xs]) (simp_all add: group_targets_def group_abs_def)
  qed
qed (use assms in simp_all)

lemma wf_group_write:
  assumes "wf_group g" "list_all is_str ys" "distinct ys"
  shows "\<exists>g'. js_set g ''targets'' (JArr ys) = Some g' \<and> wf_group g' \<and> group_abs g' = map str_of ys"
  using assms
  by (cases g) (auto simp: group_abs_def map_of_assoc_set distinct_assoc_set)

lemma wf_group_distinct: "wf_group g \<Longrightarrow> distinct (group_abs g)"
  by (auto elim!: wf_group_targets intro: distinct_str_of)

lemma wf_job_cases:
  assumes "wf_job job"
  obtains qs n where "job = JObj qs" "distinct (map fst qs)" "map_of qs ''job_name'' = Some (JStr n)"
    "map_of qs ''static_configs'' = None \<or> map_of qs ''static_configs'' = Some (JArr [])"
  | qs n g gs where "job = JObj qs" "distinct (map fst qs)" "map_of qs ''job_name'' = Some (JStr n)"
    "map_of qs ''static_configs'' = Some (JArr (g # gs))" "wf_group g" "list_all wf_group gs"
proof -
  from assms obtain qs where job: "job = JObj qs" by (cases job) auto
  with assms obtain n where d: "distinct (map fst qs)" and name: "map_of qs ''job_name'' = Some (JStr n)"
    by (auto split: option.splits jval.splits)
  show thesis
  proof (cases "map_of qs ''static_configs''")
    case None
    with job d name show thesis by (intro that(1)) auto
  next
    case (Some v)
    with assms job obtain gs where "v = JArr gs" "list_all wf_group gs"
      by (cases v) auto
    with job d name Some show thesis by (cases gs) (auto intro: that)
  qed
qed

lemma wf_job_first_group_distinct: "wf_job j \<Longrightarrow> distinct (first_group (snd (job_abs j)))"
  by (auto simp: job_abs_def first_group_def wf_group_distinct elim!: wf_job_cases)

lemma wf_doc_cases:
  assumes "wf_doc d"
  obtains ps jobs where "d = JObj ps" "distinct (map fst ps)"
    "map_of ps ''scrape_configs'' = Some (JArr jobs)" "list_all wf_job jobs"
  using assms by (cases d) (auto split: option.splits jval.splits)

lemma is_prometheus_job_wf:
  "wf_job j \<Longrightarrow> is_prometheus_job j = Some (fst (job_abs j) = ''prometheus'')"
  by (auto simp: is_prometheus_job_def job_abs_def elim!: wf_job_cases)

text \<open>The update of one well-formed job is the abstract \<open>register_job\<close>.\<close>

lemma register_in_job_wf_job:
  assumes wf: "wf_job (jobs ! i)"
  shows "\<exists>job'. register_in_job t (JObj ps) jobs i =
      MDone (t \<notin> set (first_group (snd (job_abs (jobs ! i)))))
        (JObj (assoc_set ps ''scrape_configs'' (JArr (jobs[i := job'])))) \<and>
    wf_job job' \<and> job_abs job' = register_job t (job_abs (jobs ! i))"
  using wf
proof (cases rule: wf_job_cases)
  case (1 qs n)
  let ?job' = "JObj (assoc_set qs ''static_configs'' (JArr [JObj [(''targets'', JArr [JStr t])]]))"
  from 1 have "register_in_job t (JObj ps) jobs i =
      MDone True (JObj (assoc_set ps ''scrape_configs'' (JArr (jobs[i := ?job']))))"
    by (auto simp: register_in_job_def ensure_static_configs_def empty_target_group_def
        group_targets_def add_target_def map_of_assoc_set assoc_set_twice)
  moreover from 1 have "wf_job ?job'"
    by (simp add: map_of_assoc_set distinct_assoc_set)
  moreover from 1 have "job_abs ?job' = register_job t (job_abs (jobs ! i))"
    by (auto simp: job_abs_def group_abs_def register_job_def map_of_assoc_set)
  moreover from 1 have "first_group (snd (job_abs (jobs ! i))) = []"
    by (auto simp: job_abs_def first_group_def)
  ultimately show ?thesis by auto
next
  case (2 qs n g gs)
  from \<open>wf_group g\<close> obtain xs where xs: "group_targets g = Some xs" "list_all is_str xs" "distinct xs"
    "group_abs g = map str_of xs" by (rule wf_group_targets)
  let ?ys = "snd (add_target t xs)"
  from add_target_wf [OF xs(2,3)] obtain g' where g': "js_set g ''targets'' (JArr ?ys) = Some g'"
    "wf_group g'" "group_abs g' = map str_of ?ys"
    using wf_group_write [OF \<open>wf_group g\<close>] by blast
  let ?job' = "JObj (assoc_set qs ''static_configs'' (JArr (g' # gs)))"
  from 2 xs g' have "register_in_job t (JObj ps) jobs i =
      MDone (fst (add_target t xs)) (JObj (assoc_set ps ''scrape_configs'' (JArr (jobs[i := ?job']))))"
    by (simp add: register_in_job_def ensure_static_configs_def map_of_assoc_set assoc_set_twice
        prod.case_eq_if)
  moreover from 2 g' have "wf_job ?job'"
    by (simp add: map_of_assoc_set distinct_assoc_set)
  moreover from 2 xs g' have "job_abs ?job' = register_job t (job_abs (jobs ! i))"
    by (simp add: job_abs_def register_job_def map_of_assoc_set add_target_abs)
  moreover from 2 xs have "fst (add_target t xs) = (t \<notin> set (first_group (snd (job_abs (jobs ! i)))))"
    by (simp add: job_abs_def first_group_def add_target_flag)
  ultimately show ?thesis by auto
qed

text \<open>On well-formed jobs \<open>find\<close> never throws, and its answer is the abstract one.\<close>

lemma js_find_wf_jobs:
  assumes "list_all wf_job jobs"
  shows "js_find is_prometheus_job jobs = Some None \<and> ''prometheus'' \<notin> fst ` job_abs ` set jobs \<or>
    (\<exists>i. js_find is_prometheus_job jobs = Some (Some i) \<and>
       register_abs t (map job_abs jobs) = (map job_abs jobs)[i := register_job t (job_abs (jobs ! i))] \<and>
       prom_targets (map job_abs jobs) = first_group (snd (job_abs (jobs ! i))))"
  using assms
proof (induction jobs)
  case Nil
  then show ?case by simp
next
  case (Cons j jobs)
  from Cons.prems have wfs: "wf_job j" "list_all wf_job jobs" by simp_all
  show ?case
  proof (cases "fst (job_abs j) = ''prometheus''")
    case True
    with wfs show ?thesis by (auto simp: is_prometheus_job_wf)
  next
    case False
    with wfs have step: "js_find is_prometheus_job (j # jobs) =
        map_option (map_option Suc) (js_find is_prometheus_job jobs)"
      by (simp add: is_prometheus_job_wf)
    from False have reg: "register_abs t (map job_abs (j # jobs)) = job_abs j # register_abs t (map job_abs jobs)"
      and pt: "prom_targets (map job_abs (j # jobs)) = prom_targets (map job_abs jobs)"
      by simp_all
    from Cons.IH [OF wfs(2)] show ?thesis
    proof
      assume "js_find is_prometheus_job jobs = Some None \<and> ''prometheus'' \<notin> fst ` job_abs ` set jobs"
      with step False show ?thesis by auto
    next
      assume "\<exists>i. js_find is_prometheus_job jobs = Some (Some i) \<and>
       register_abs t (map job_abs jobs) = (map job_abs jobs)[i := register_job t (job_abs (jobs ! i))] \<and>
       prom_targets (map job_abs jobs) = first_group (snd (job_abs (jobs ! i)))"
      then obtain i where "js_find is_prometheus_job jobs = Some (Some i)"
        "register_abs t (map job_abs jobs) = (map job_abs jobs)[i := register_job t (job_abs (jobs ! i))]"
        "prom_targets (map job_abs jobs) = first_group (snd (job_abs (jobs ! i)))"
        by blast
      with step reg pt show ?thesis by (intro disjI2 exI [of _ "Suc i"]) simp
    qed
  qed
qed

text \<open>The run of the mutation on a well-formed document with a \<open>prometheus\<close> job,
  shared by the refinement and the invariant.\<close>

lemma update_config_wf_run:
  assumes "d = JObj ps" "map_of ps ''scrape_configs'' = Some (JArr jobs)" "list_all wf_job jobs"
    and found: "js_find is_prometheus_job jobs = Some (Some i)"
  shows "\<exists>job'. update_config t d =
      MDone (t \<notin> set (first_group (snd (job_abs (jobs ! i)))))
        (JObj (assoc_set ps ''scrape_configs'' (JArr (jobs[i := job'])))) \<and>
    wf_job job' \<and> job_abs job' = register_job t (job_abs (jobs ! i)) \<and> i < length jobs"
proof -
  from found have i: "i < length jobs" by (auto dest: js_find_SomeD)
  with assms(3) have "wf_job (jobs ! i)" by (simp add: list_all_length)
  from register_in_job_wf_job [OF this, of t ps] assms(1,2) found i show ?thesis
    by (simp add: update_config_def)
qed

lemma wf_doc_update:
  "distinct (map fst ps) \<Longrightarrow> list_all wf_job jobs \<Longrightarrow> wf_job job' \<Longrightarrow>
   wf_doc (JObj (assoc_set ps ''scrape_configs'' (JArr (jobs[i := job']))))"
  by (simp add: map_of_assoc_set distinct_assoc_set list_all_update)

lemma prom_targets_distinct:
  "list_all wf_job jobs \<Longrightarrow> distinct (prom_targets (map job_abs jobs))"
  by (induction jobs) (auto simp: wf_job_first_group_distinct)

lemma register_abs_prom_targets:
  "''prometheus'' \<in> fst ` set js \<Longrightarrow> prom_targets (register_abs t js) = insert_target t (prom_targets js)"
proof (induction js)
  case (Cons j js)
  show ?case
  proof (cases "fst j = ''prometheus''")
    case True
    then show ?thesis
      by (cases "snd j") (simp_all add: register_job_def first_group_def insert_target_def)
  next
    case False
    with Cons.prems have "''prometheus'' \<in> fst ` set js" by auto
    with False Cons.IH show ?thesis by simp
  qed
qed simp

lemma count_insert_target: "distinct xs \<Longrightarrow> count_list (insert_target t xs) t = 1"
  by (simp add: insert_target_def count_list_distinct_mem)

lemma wf_doc_prom_targets_distinct: "wf_doc d \<Longrightarrow> distinct (prom_targets (doc_abs d))"
  by (erule wf_doc_cases) (simp add: doc_abs_def prom_targets_distinct)

text \<open>The two runs of the mutation on a well-formed document: without a \<open>prometheus\<close>
  job it returns early, with one it completes with a well-formed document whose
  abstract view is the abstract registration. The properties below are its cases.\<close>

lemma update_config_wf_cases:
  assumes "wf_doc d"
  shows "''prometheus'' \<notin> fst ` set (doc_abs d) \<and> update_config t d = MReturn JobNotFound \<or>
    ''prometheus'' \<in> fst ` set (doc_abs d) \<and>
    (\<exists>d'. update_config t d = MDone (t \<notin> set (prom_targets (doc_abs d))) d' \<and>
          doc_abs d' = register_abs t (doc_abs d) \<and> wf_doc d')"
proof -
  obtain ps jobs where d: "d = JObj ps" "distinct (map fst ps)"
    "map_of ps ''scrape_configs'' = Some (JArr jobs)" and wf: "list_all wf_job jobs"
    using assms by (rule wf_doc_cases)
  from d have abs: "doc_abs d = map job_abs jobs" by (simp add: doc_abs_def)
  from js_find_wf_jobs [OF wf, of t] show ?thesis
  proof
    assume "js_find is_prometheus_job jobs = Some None \<and> ''prometheus'' \<notin> fst ` job_abs ` set jobs"
    with d abs show ?thesis by (simp add: update_config_def image_image)
  next
    assume "\<exists>i. js_find is_prometheus_job jobs = Some (Some i) \<and>
       register_abs t (map job_abs jobs) = (map job_abs jobs)[i := register_job t (job_abs (jobs ! i))] \<and>
       prom_targets (map job_abs jobs) = first_group (snd (job_abs (jobs ! i)))"
    then obtain i where found: "js_find is_prometheus_job jobs = Some (Some i)" and
      reg: "register_abs t (map job_abs jobs) = (map job_abs jobs)[i := register_job t (job_abs (jobs ! i))]" and
      pt: "prom_targets (map job_abs jobs) = first_group (snd (job_abs (jobs ! i)))"
      by blast
    from update_config_wf_run [OF d(1,3) wf found, of t] obtain job' where
      run: "update_config t d = MDone (t \<notin> set (first_group (snd (job_abs (jobs ! i)))))
          (JObj (assoc_set ps ''scrape_configs'' (JArr (jobs[i := job']))))" and
      job': "wf_job job'" "job_abs job' = register_job t (job_abs (jobs ! i))"
      by blast
    from js_find_SomeD [OF found] wf have "i < length jobs" "fst (job_abs (jobs ! i)) = ''prometheus''"
      by (auto simp: is_prometheus_job_wf list_all_length)
    then have named: "''prometheus'' \<in> fst ` set (doc_abs d)"
      using abs by (metis image_eqI list.set_map nth_mem)
    have "doc_abs (JObj (assoc_set ps ''scrape_configs'' (JArr (jobs[i := job'])))) =
        register_abs t (doc_abs d)"
      using abs reg job'(2) by (simp add: doc_abs_def map_of_assoc_set map_update)
    moreover have "wf_doc (JObj (assoc_set ps ''scrape_configs'' (JArr (jobs[i := job']))))"
      using d(2) wf job'(1) by (rule wf_doc_update)
    ultimately show ?thesis using run pt abs named by auto
  qed
qed

section \<open>Well-formed documents: the contract\<close>


text \<open>
  C6. Well-formedness is an invariant of the mutation: in particular no target group
  ever lists an address twice, which is the invariant the spec states for the target
  set.
\<close>

theorem update_config_wf:
  assumes "wf_doc d" and "update_config t d = MDone a d'"
  shows "wf_doc d'"
  using update_config_wf_cases [OF assms(1), of t] assms(2) by auto

text \<open>On a well-formed document the mutation never throws: it either registers or
  reports the missing job.\<close>

lemma wf_doc_no_throw:
  assumes "wf_doc d"
  shows "update_config t d \<noteq> MThrow"
  using update_config_wf_cases [OF assms, of t] by auto

text \<open>
  C7. Missing-job safety: on a well-formed document without a job named
  \<open>prometheus\<close> the mutation returns early (it neither throws nor writes).
\<close>

theorem update_config_missing_job:
  assumes "wf_doc d" and "''prometheus'' \<notin> fst ` set (doc_abs d)"
  shows "update_config t d = MReturn JobNotFound"
  using update_config_wf_cases [OF assms(1), of t] assms(2) by blast

text \<open>
  C8. After a registration on a well-formed document the scraped target list holds the
  address exactly once, however many times it was registered before.
\<close>

theorem update_config_exactly_once:
  assumes "wf_doc d" and "update_config t d = MDone a d'"
  shows "count_list (prom_targets (doc_abs d')) t = 1"
proof -
  from update_config_wf_cases [OF assms(1), of t] assms(2)
  have "''prometheus'' \<in> fst ` set (doc_abs d)" and "doc_abs d' = register_abs t (doc_abs d)"
    by auto
  then have "prom_targets (doc_abs d') = insert_target t (prom_targets (doc_abs d))"
    by (simp add: register_abs_prom_targets)
  with wf_doc_prom_targets_distinct [OF assms(1)] show ?thesis by (simp add: count_insert_target)
qed

lemmas doc_abs_eval = doc_abs_def job_abs_def group_abs_def prom_doc_def

lemma prom_doc_wf: "wf_doc (prom_doc [JStr ''10.0.0.1:8000''])"
  by (simp add: prom_doc_def)



theorem update_config_wf_witness:
  "wf_doc (prom_doc [JStr ''10.0.0.1:8000'', JStr ''10.0.0.2:8000''])"
proof -
  have "update_config ''10.0.0.2:8000'' (prom_doc [JStr ''10.0.0.1:8000'']) =
     MDone True (prom_doc [JStr ''10.0.0.1:8000'', JStr ''10.0.0.2:8000''])"
    by (simp add: update_config_eval prom_doc_def)
  with prom_doc_wf show ?thesis by (rule update_config_wf)
qed

theorem update_config_missing_job_witness:
  "update_config ''10.0.0.2:8000''
     (JObj [(''scrape_configs'', JArr [JObj [(''job_name'', JStr ''node'')]])]) = MReturn JobNotFound"
proof -
  have "wf_doc (JObj [(''scrape_configs'', JArr [JObj [(''job_name'', JStr ''node'')]])])"
    by simp
  moreover have "''prometheus'' \<notin> fst ` set (doc_abs
      (JObj [(''scrape_configs'', JArr [JObj [(''job_name'', JStr ''node'')]])]))"
    by (simp add: doc_abs_eval)
  ultimately show ?thesis by (rule update_config_missing_job)
qed

theorem update_config_exactly_once_witness:
  "count_list (prom_targets (doc_abs (prom_doc [JStr ''10.0.0.1:8000'']))) ''10.0.0.1:8000'' = 1"
proof -
  have "update_config ''10.0.0.1:8000'' (prom_doc [JStr ''10.0.0.1:8000'']) =
     MDone False (prom_doc [JStr ''10.0.0.1:8000''])"
    by (simp add: update_config_eval prom_doc_def)
  with prom_doc_wf show ?thesis by (rule update_config_exactly_once)
qed

section \<open>Documents the code mishandles\<close>

text \<open>
  C20. A \<open>null\<close> entry in \<open>scrape_configs\<close> ahead of the \<open>prometheus\<close> job (a
  stray \<open>-\<close> line in the YAML) makes the \<open>find\<close> callback read
  \<open>null.job_name\<close>: the mutation throws instead of reporting a malformed schema.
\<close>

theorem null_job_entry_throws:
  assumes "js_get d ''scrape_configs'' = Some (JArr (pre @ JNull # post))"
    and "\<forall>j \<in> set pre. is_prometheus_job j = Some False"
  shows "update_config t d = MThrow"
proof -
  have "js_find is_prometheus_job (pre @ JNull # post) = None"
    using assms(2) by (simp add: js_find_skip is_prometheus_job_def)
  with assms(1) show ?thesis by (simp add: update_config_def)
qed

theorem null_job_entry_throws_witness:
  "update_config ''10.0.0.2:8000''
     (JObj [(''scrape_configs'', JArr ([] @ JNull # [JObj [(''job_name'', JStr ''prometheus'')]]))]) = MThrow"
  by (rule null_job_entry_throws [where pre = "[]" and post = "[JObj [(''job_name'', JStr ''prometheus'')]]"])
    simp_all

text \<open>
  C21. A first target group written as a YAML sequence instead of a mapping
  (\<open>static_configs: [[...]]\<close>) is an array: the code assigns \<open>targets\<close> as a
  named property of it, logs "Added target" and dumps the document, in which such a
  property does not appear. Every run reports the target as added and the file never
  lists it.
\<close>

theorem array_group_never_persists:
  assumes "d = JObj ps" and "map_of ps ''scrape_configs'' = Some (JArr jobs)"
    and "js_find is_prometheus_job jobs = Some (Some i)"
    and "js_get (jobs ! i) ''static_configs'' = Some (JArr (JArr g # gs))"
  shows "update_config t d = MDone True d"
proof -
  from js_find_SomeD [OF assms(3)] have i: "i < length jobs"
    and "is_prometheus_job (jobs ! i) = Some True" by auto
  then obtain qs where job: "jobs ! i = JObj qs" by (blast dest: is_prometheus_job_obj)
  with assms(4) have qs: "map_of qs ''static_configs'' = Some (JArr (JArr g # gs))"
    by (auto split: option.splits)
  have "ensure_static_configs (jobs ! i) = Some (jobs ! i)"
    using assms(4) by (simp add: ensure_static_configs_def)
  moreover from job have "jobs[i := JObj qs] = jobs" by (metis list_update_id)
  ultimately show ?thesis using assms job qs i
    by (simp add: update_config_def register_in_job_def group_targets_def add_target_def
        assoc_set_same)
qed

theorem array_group_never_persists_witness:
  "update_config ''10.0.0.2:8000''
     (JObj [(''scrape_configs'', JArr [JObj [(''job_name'', JStr ''prometheus''),
        (''static_configs'', JArr [JArr [JStr ''10.0.0.1:8000'']])]])]) =
   MDone True (JObj [(''scrape_configs'', JArr [JObj [(''job_name'', JStr ''prometheus''),
        (''static_configs'', JArr [JArr [JStr ''10.0.0.1:8000'']])]])])"
proof -
  let ?job = "JObj [(''job_name'', JStr ''prometheus''),
        (''static_configs'', JArr [JArr [JStr ''10.0.0.1:8000'']])]"
  have "map_of [(''scrape_configs'', JArr [?job])] ''scrape_configs'' = Some (JArr [?job])" by simp
  moreover have "js_find is_prometheus_job [?job] = Some (Some 0)" by (simp add: is_prometheus_job_def)
  moreover have "js_get ([?job] ! 0) ''static_configs'' = Some (JArr (JArr [JStr ''10.0.0.1:8000''] # []))"
    by simp
  ultimately show ?thesis by (rule array_group_never_persists [OF refl])
qed

section \<open>The scenarios of the spec\<close>



end
