(* ===== verification/Address.thy ===== *)
theory Address
  imports JsValue
begin

text \<open>
  The address resolver of \<open>src/index.js\<close> (lines 90--107): \<open>getExternalIPv4\<close>
  scans the interfaces of \<open>os.networkInterfaces()\<close> in the order of
  \<open>Object.values\<close> and returns the first address whose \<open>family\<close> is the string
  \<open>"IPv4"\<close> and which is not internal, else \<open>127.0.0.1\<close>; the target address
  appends the port, \<open>process.env.PORT || 8000\<close>. The interface table is the host's
  input; \<open>family\<close> is kept as a JavaScript value because the code compares it with
  \<open>===\<close>.
\<close>

record net_entry =
  address :: string
  family :: jval
  internal :: bool

text \<open>What the host reports: interface names with their address entries, in the
  order \<open>Object.values\<close> yields them.\<close>

type_synonym interfaces = "(string \<times> net_entry list) list"

definition qualifies :: "net_entry \<Rightarrow> bool" where
  "qualifies net \<longleftrightarrow> family net = JStr ''IPv4'' \<and> \<not> internal net"

text \<open>The inner \<open>for\<close> loop (lines 96--100) and the outer one (lines 95--101); the
  \<open>return\<close> inside leaves both loops.\<close>

fun scan_iface :: "net_entry list \<Rightarrow> string option" where
  "scan_iface [] = None"
| "scan_iface (net # nets) = (if qualifies net then Some (address net) else scan_iface nets)"

fun scan_ifaces :: "net_entry list list \<Rightarrow> string option" where
  "scan_ifaces [] = None"
| "scan_ifaces (iface # ifaces) =
     (case scan_iface iface of Some a \<Rightarrow> Some a | None \<Rightarrow> scan_ifaces ifaces)"

definition getExternalIPv4 :: "interfaces \<Rightarrow> string" where
  "getExternalIPv4 nets =
     (case scan_ifaces (map snd nets) of Some a \<Rightarrow> a | None \<Rightarrow> ''127.0.0.1'')"

text \<open>Line 90: \<open>process.env.PORT || 8000\<close>; an empty variable is falsy.\<close>

definition port_value :: "string option \<Rightarrow> jval" where
  "port_value env =
     (case env of Some s \<Rightarrow> if truthy (JStr s) then JStr s else JNum 8000 | None \<Rightarrow> JNum 8000)"

text \<open>Lines 105--107.\<close>

definition target_address :: "interfaces \<Rightarrow> string option \<Rightarrow> string" where
  "target_address nets env = getExternalIPv4 nets @ '':'' @ js_to_string (port_value env)"

section \<open>Lemmas\<close>

text \<open>The nested scan is a search of the flattened table.\<close>

lemma scan_iface_find: "scan_iface nets = map_option address (find qualifies nets)"
  by (induction nets) auto

lemma scan_ifaces_find:
  "scan_ifaces ifaces = map_option address (find qualifies (concat ifaces))"
  by (induction ifaces) (auto simp: scan_iface_find find_append_list split: option.splits)

lemma port_default_text [model_simps]: "dec_string 8000 = ''8000''"
  by (simp add: dec_string_eval)

section \<open>Properties\<close>


text \<open>
  C10. Address fallback: on a host with no non-internal IPv4 entry the resolver returns
  the loopback address. The test is a strict comparison with the string
  \<open>"IPv4"\<close>, so an entry whose \<open>family\<close> the runtime reports as the number
  \<open>4\<close> (Node.js 18.0 to 18.3 did) counts as none: the witness is such a host, and
  the instance advertises the loopback address.
\<close>

theorem getExternalIPv4_fallback:
  assumes "\<forall>iface \<in> set nets. \<forall>net \<in> set (snd iface). family net \<noteq> JStr ''IPv4'' \<or> internal net"
  shows "getExternalIPv4 nets = ''127.0.0.1''"
proof -
  from assms have "find qualifies (concat (map snd nets)) = None"
    by (auto simp: find_None_iff qualifies_def)
  then show ?thesis by (simp add: getExternalIPv4_def scan_ifaces_find)
qed

theorem getExternalIPv4_fallback_witness:
  "getExternalIPv4 [(''lo'', [\<lparr>address = ''127.0.0.1'', family = JStr ''IPv4'', internal = True\<rparr>]),
                    (''eth0'', [\<lparr>address = ''10.0.0.5'', family = JNum 4, internal = False\<rparr>])] =
     ''127.0.0.1''"
  by (rule getExternalIPv4_fallback) simp

text \<open>
  C11. The advertised address is the chosen host, a colon, and the port: the
  environment's \<open>PORT\<close> verbatim when it is set and non-empty, \<open>8000\<close> otherwise.
\<close>

theorem target_address_port:
  "target_address nets env =
     getExternalIPv4 nets @ '':'' @ (case env of Some s \<Rightarrow> if s = [] then ''8000'' else s | None \<Rightarrow> ''8000'')"
  by (simp add: target_address_def port_value_def port_default_text split: option.splits)

end
