(* ===== verification/Registration.thy ===== *)
theory Registration
  imports ConfigMutator Address
begin

text \<open>
  The registration at module load (\<open>src/index.js\<close>, lines 105--164):
  \<open>updatePrometheusYML\<close> reads and parses \<open>prometheus.yml\<close>, runs the document
  mutation of \<open>ConfigMutator\<close>, writes the file back and issues the reload request.
  The outside world is explicit state: the files, the faults a write may meet, the
  console and the outbound HTTP requests. js-yaml is the interface \<open>codec\<close>: a
  parser that may throw (\<open>None\<close>) and a dumper that may throw; the lemmas that need
  more of it say so in a hypothesis (\<open>codec_roundtrip\<close>).
\<close>

record 'c codec =
  load :: "'c \<Rightarrow> jval option"
  dump :: "jval \<Rightarrow> 'c option"

definition codec_roundtrip :: "'c codec \<Rightarrow> bool" where
  "codec_roundtrip cd \<longleftrightarrow> (\<forall>d c. dump cd d = Some c \<longrightarrow> load cd c = Some d)"

text \<open>How a \<open>writeFileSync\<close> to a path ends: it succeeds, fails before touching the
  file (\<open>EACCES\<close>), or fails after truncating it (\<open>ENOSPC\<close> part-way), leaving the
  given content.\<close>

datatype 'c write_fault = NoFault | FailUntouched | FailPartial 'c

text \<open>The console lines of the program, in the order \<open>console.log\<close> and
  \<open>console.error\<close> print them.\<close>

datatype log_entry =
    DetectedTarget string
  | ReadConfigError
  | NoScrapeConfigsError
  | JobNotFoundError
  | TargetAdded string
  | TargetExists string
  | ConfigUpdated
  | WriteConfigError
  | ReloadTriggered nat
  | ReloadError
  | ServerStarted string string

datatype out_request = Post string

record 'c world =
  files :: "string \<rightharpoonup> 'c"
  write_faults :: "string \<Rightarrow> 'c write_fault"
  console :: "log_entry list"
  outbox :: "out_request list"

text \<open>The completion of a statement: normal, or an uncaught exception, with the world
  as the exception left it.\<close>

datatype 'a completion = Normal 'a | Thrown 'a

definition console_log :: "log_entry \<Rightarrow> 'c world \<Rightarrow> 'c world" where
  "console_log e w = w\<lparr>console := console w @ [e]\<rparr>"

text \<open>\<open>yaml.load(fs.readFileSync(path, "utf8"))\<close> (line 116): a missing file and
  a parse error both throw.\<close>

definition read_config :: "'c codec \<Rightarrow> string \<Rightarrow> 'c world \<Rightarrow> jval option" where
  "read_config cd path w = Option.bind (files w path) (load cd)"

text \<open>\<open>fs.writeFileSync(path, yaml.dump(config))\<close> (line 148): \<open>True\<close> when it
  returns normally.\<close>

definition write_config :: "'c codec \<Rightarrow> string \<Rightarrow> jval \<Rightarrow> 'c world \<Rightarrow> bool \<times> 'c world" where
  "write_config cd path d w =
     (case dump cd d of
        None \<Rightarrow> (False, w)
      | Some c \<Rightarrow>
          (case write_faults w path of
             NoFault \<Rightarrow> (True, w\<lparr>files := (files w)(path \<mapsto> c)\<rparr>)
           | FailUntouched \<Rightarrow> (False, w)
           | FailPartial c' \<Rightarrow> (False, w\<lparr>files := (files w)(path \<mapsto> c')\<rparr>)))"

definition reload_url :: string where
  "reload_url = ''http://localhost:9090/-/reload''"

text \<open>Lines 154--161: the POST is issued and \<open>req.end()\<close> sends it; its response
  and error callbacks run later, from the event loop (theory \<open>Service\<close>).\<close>

definition send_reload :: "'c world \<Rightarrow> 'c world" where
  "send_reload w = w\<lparr>outbox := outbox w @ [Post reload_url]\<rparr>"

text \<open>\<open>updatePrometheusYML\<close>, lines 113--162.\<close>

definition update_prometheus_yml :: "'c codec \<Rightarrow> string \<Rightarrow> string \<Rightarrow> 'c world \<Rightarrow> 'c world completion" where
  "update_prometheus_yml cd path t w =
     (case read_config cd path w of
        None \<Rightarrow> Normal (console_log ReadConfigError w)
      | Some config \<Rightarrow>
          (case update_config t config of
             MThrow \<Rightarrow> Thrown w
           | MReturn NoScrapeConfigs \<Rightarrow> Normal (console_log NoScrapeConfigsError w)
           | MReturn JobNotFound \<Rightarrow> Normal (console_log JobNotFoundError w)
           | MDone added config' \<Rightarrow>
               (let w1 = console_log (if added then TargetAdded t else TargetExists t) w in
                case write_config cd path config' w1 of
                  (ok, w2) \<Rightarrow>
                    Normal (send_reload (console_log (if ok then ConfigUpdated else WriteConfigError) w2)))))"

text \<open>The host the module starts on, and whether \<open>app.listen(PORT, HOST)\<close> can bind
  there when it runs (the port is free and permitted).\<close>

record host =
  env_port :: "string option"
  net_ifaces :: interfaces
  module_dir :: string
  port_bindable :: bool

definition config_path :: "host \<Rightarrow> string" where
  "config_path h = module_dir h @ ''/prometheus.yml''"

text \<open>The module's top level up to \<open>app.listen\<close> (lines 90--164 and 166--236):
  after the registration nothing before \<open>listen\<close> can throw or touch the world, so a
  normal completion is the call of \<open>listen\<close>.\<close>

definition boot :: "'c codec \<Rightarrow> host \<Rightarrow> 'c world \<Rightarrow> 'c world completion" where
  "boot cd h w =
     (let t = target_address (net_ifaces h) (env_port h)
      in update_prometheus_yml cd (config_path h) t (console_log (DetectedTarget t) w))"

section \<open>The contract of the spec\<close>

text \<open>The result of the spec's \<open>registerTarget\<close> (section 4.2), with the error
  taxonomy of section 7. The code returns nothing: the operator reads the result from the
  console, where a run of \<open>updatePrometheusYML\<close> that completes prints one line that
  names it.\<close>

datatype config_error = ConfigUnreadable | MalformedSchema | ConfigJobNotFound | ConfigWriteFailed

fun line_result :: "log_entry \<Rightarrow> (config_error + unit) option" where
  "line_result ReadConfigError = Some (Inl ConfigUnreadable)"
| "line_result NoScrapeConfigsError = Some (Inl MalformedSchema)"
| "line_result JobNotFoundError = Some (Inl ConfigJobNotFound)"
| "line_result WriteConfigError = Some (Inl ConfigWriteFailed)"
| "line_result ConfigUpdated = Some (Inr ())"
| "line_result e = None"

definition registration_result :: "log_entry list \<Rightarrow> (config_error + unit) option" where
  "registration_result es = (case List.map_filter line_result es of [r] \<Rightarrow> Some r | _ \<Rightarrow> None)"



section \<open>Example data\<close>

text \<open>A codec that stores documents as they are, and a world holding the spec's
  example configuration, whose writes meet the given fault.\<close>

definition id_codec :: "jval codec" where
  "id_codec = \<lparr>load = Some, dump = Some\<rparr>"

definition ex_path :: string where
  "ex_path = ''/app/prometheus.yml''"

definition ex_world :: "jval write_fault \<Rightarrow> jval world" where
  "ex_world f = \<lparr>files = [ex_path \<mapsto> prom_doc [JStr ''10.0.0.1:8000'']], write_faults = (\<lambda>_. f),
     console = [], outbox = []\<rparr>"

text \<open>A host with one external interface, no \<open>PORT\<close> variable, and the module in
  \<open>/app\<close>.\<close>

definition ex_host :: host where
  "ex_host = \<lparr>env_port = None,
     net_ifaces = [(''lo'', [\<lparr>address = ''127.0.0.1'', family = JStr ''IPv4'', internal = True\<rparr>]),
                   (''eth0'', [\<lparr>address = ''10.0.0.2'', family = JStr ''IPv4'', internal = False\<rparr>])],
     module_dir = ''/app'', port_bindable = True\<rparr>"

section \<open>Lemmas\<close>

lemma completion_cases: "(\<exists>w'. c = Normal w') \<or> (\<exists>w'. c = Thrown w')"
  by (cases c) auto

lemma console_log_fields [simp]:
  "outbox (console_log e w) = outbox w" "files (console_log e w) = files w"
  "write_faults (console_log e w) = write_faults w" "console (console_log e w) = console w @ [e]"
  by (simp_all add: console_log_def)

lemmas registration_simps = update_prometheus_yml_def console_log_def send_reload_def write_config_def
  read_config_def

lemma write_config_frame:
  "write_config cd path d w = (ok, w') \<Longrightarrow>
   write_faults w' = write_faults w \<and> console w' = console w \<and> outbox w' = outbox w \<and>
   (\<forall>q. q \<noteq> path \<longrightarrow> files w' q = files w q)"
  by (auto simp: write_config_def split: option.splits write_fault.splits)

lemma write_config_ok:
  "dump cd d = Some c \<Longrightarrow> write_faults w path = NoFault \<Longrightarrow>
   write_config cd path d w = (True, w\<lparr>files := (files w)(path \<mapsto> c)\<rparr>)"
  by (simp add: write_config_def)

lemma write_config_fails:
  "dump cd d = Some c \<Longrightarrow> write_faults w path \<noteq> NoFault \<Longrightarrow>
   \<exists>w'. write_config cd path d w = (False, w') \<and> console w' = console w \<and> outbox w' = outbox w"
  by (cases "write_faults w path") (auto simp: write_config_def)

text \<open>The shape of every run: only the configuration file may change, the console
  gains at most two of the registration's own lines, and at most one request is sent,
  the reload.\<close>

lemma update_prometheus_yml_frame:
  assumes "update_prometheus_yml cd path t w = Normal w' \<or> update_prometheus_yml cd path t w = Thrown w'"
  shows "write_faults w' = write_faults w \<and> (\<forall>q. q \<noteq> path \<longrightarrow> files w' q = files w q) \<and>
         (\<exists>es. console w' = console w @ es \<and> length es \<le> 2 \<and>
            set es \<subseteq> {ReadConfigError, NoScrapeConfigsError, JobNotFoundError, TargetAdded t,
                       TargetExists t, ConfigUpdated, WriteConfigError}) \<and>
         (outbox w' = outbox w \<or> outbox w' = outbox w @ [Post reload_url])"
  using assms
  by (auto simp: update_prometheus_yml_def console_log_def send_reload_def Let_def
      dest!: write_config_frame split: option.splits mutation.splits abort.splits prod.splits)

lemma update_prometheus_yml_done:
  assumes "read_config cd path w = Some d" "update_config t d = MDone a d'"
  shows "update_prometheus_yml cd path t w =
     (case write_config cd path d' (console_log (if a then TargetAdded t else TargetExists t) w) of
        (ok, w2) \<Rightarrow> Normal (send_reload (console_log (if ok then ConfigUpdated else WriteConfigError) w2)))"
  using assms by (simp add: update_prometheus_yml_def)

lemma ex_read [simp]: "read_config id_codec ex_path (ex_world f) = Some (prom_doc [JStr ''10.0.0.1:8000''])"
  by (simp add: read_config_def id_codec_def ex_world_def)

lemma ex_update [simp]:
  "update_config ''10.0.0.2:8000'' (prom_doc [JStr ''10.0.0.1:8000'']) =
     MDone True (prom_doc [JStr ''10.0.0.1:8000'', JStr ''10.0.0.2:8000''])"
  by (simp add: update_config_eval prom_doc_def)

lemma id_codec_dump [simp]: "dump id_codec d = Some d"
  by (simp add: id_codec_def)

lemma ex_target: "target_address (net_ifaces ex_host) (env_port ex_host) = ''10.0.0.2:8000''"
  by (simp add: target_address_def getExternalIPv4_def qualifies_def ex_host_def port_value_def port_default_text)

lemma ex_boot_normal:
  "\<exists>w. boot id_codec ex_host (ex_world f) = Normal w \<and> outbox w = [Post reload_url] \<and> length (console w) = 3"
proof -
  let ?t = "''10.0.0.2:8000''"
  let ?w0 = "console_log (DetectedTarget ?t) (ex_world f)"
  let ?w1 = "console_log (TargetAdded ?t) ?w0"
  obtain ok w2 where wc: "write_config id_codec ex_path (prom_doc [JStr ''10.0.0.1:8000'', JStr ?t]) ?w1 = (ok, w2)"
    by fastforce
  have cp: "config_path ex_host = ex_path" by (simp add: config_path_def ex_host_def ex_path_def)
  have rd: "read_config id_codec ex_path ?w0 = Some (prom_doc [JStr ''10.0.0.1:8000''])"
    by (simp add: read_config_def id_codec_def ex_world_def)
  have "boot id_codec ex_host (ex_world f) =
      Normal (send_reload (console_log (if ok then ConfigUpdated else WriteConfigError) w2))"
    using update_prometheus_yml_done [OF rd ex_update] wc by (simp add: boot_def ex_target cp)
  moreover have "outbox w2 = []" and "length (console w2) = 2"
    using write_config_frame [OF wc] by (simp_all add: ex_world_def)
  ultimately show ?thesis by (simp add: send_reload_def)
qed

lemma registration_result_lines [simp]:
  "registration_result [e] = line_result e"
  "registration_result [e1, e2] =
     (case line_result e1 of None \<Rightarrow> line_result e2
      | Some r \<Rightarrow> (case line_result e2 of None \<Rightarrow> Some r | Some r' \<Rightarrow> None))"
  by (simp_all add: registration_result_def map_filter_simps split: option.splits)


section \<open>Properties\<close>

text \<open>
  C13. An unreadable or unparsable configuration aborts the registration: the file is
  left as it was, no reload is requested, the error is logged and the module goes on.
\<close>

theorem unreadable_config_aborts:
  assumes "read_config cd path w = None"
  shows "update_prometheus_yml cd path t w = Normal (w\<lparr>console := console w @ [ReadConfigError]\<rparr>)"
  using assms by (simp add: update_prometheus_yml_def console_log_def)

theorem unreadable_config_aborts_witness:
  "update_prometheus_yml \<lparr>load = \<lambda>c. None, dump = Some\<rparr> ''/app/prometheus.yml'' ''10.0.0.2:8000''
     \<lparr>files = [''/app/prometheus.yml'' \<mapsto> JNum 0], write_faults = \<lambda>_. NoFault, console = [], outbox = []\<rparr> =
   Normal \<lparr>files = [''/app/prometheus.yml'' \<mapsto> JNum 0], write_faults = \<lambda>_. NoFault,
     console = [ReadConfigError], outbox = []\<rparr>"
  by (rule trans [OF unreadable_config_aborts]) (simp_all add: read_config_def)

text \<open>
  C14. A configuration that parses to \<open>null\<close> or \<open>undefined\<close> (an empty file, or
  a file holding only \<open>null\<close> or a comment) makes \<open>config.scrape_configs\<close> on
  line 122 throw outside every \<open>try\<close>: the exception escapes the module's top level,
  so the process dies before \<open>app.listen\<close>. The spec requires that a registration
  failure never prevents the listener from starting.
\<close>

theorem empty_config_throws:
  assumes "read_config cd path w = Some d" and "d = JNull \<or> d = JUndef"
  shows "update_prometheus_yml cd path t w = Thrown w"
  using assms by (auto simp: update_prometheus_yml_def update_config_def)

theorem empty_config_throws_witness:
  "update_prometheus_yml \<lparr>load = Some, dump = Some\<rparr> ''/app/prometheus.yml'' ''10.0.0.2:8000''
     \<lparr>files = [''/app/prometheus.yml'' \<mapsto> JNull], write_faults = \<lambda>_. NoFault, console = [], outbox = []\<rparr> =
   Thrown \<lparr>files = [''/app/prometheus.yml'' \<mapsto> JNull], write_faults = \<lambda>_. NoFault, console = [], outbox = []\<rparr>"
  by (rule empty_config_throws [where d = JNull]) (simp_all add: read_config_def)

text \<open>
  C15. A failed write of the configuration is logged and swallowed, and the reload
  request is sent anyway: the \<open>try\<close> on lines 147--152 does not return, so lines
  154--161 run. The spec's error design says no reload is attempted after
  \<open>ConfigWriteFailed\<close>.
\<close>

theorem write_failure_still_reloads:
  assumes "read_config cd path w = Some d" and "update_config t d = MDone a d'"
    and "dump cd d' = Some c" and "write_faults w path \<noteq> NoFault"
  shows "\<exists>w'. update_prometheus_yml cd path t w = Normal w' \<and>
           console w' = console w @ [if a then TargetAdded t else TargetExists t, WriteConfigError] \<and>
           outbox w' = outbox w @ [Post reload_url]"
proof -
  from write_config_fails [OF assms(3), of "console_log (if a then TargetAdded t else TargetExists t) w"] assms(4)
  obtain w2 where "write_config cd path d' (console_log (if a then TargetAdded t else TargetExists t) w) = (False, w2)"
    and "console w2 = console w @ [if a then TargetAdded t else TargetExists t]" and "outbox w2 = outbox w"
    by (auto simp: console_log_def)
  with update_prometheus_yml_done [OF assms(1,2)] show ?thesis
    by (simp add: send_reload_def console_log_def)
qed

theorem write_failure_still_reloads_witness:
  "\<exists>w'. update_prometheus_yml id_codec ex_path ''10.0.0.2:8000'' (ex_world FailUntouched) = Normal w' \<and>
     console w' = [TargetAdded ''10.0.0.2:8000'', WriteConfigError] \<and> outbox w' = [Post reload_url]"
  using write_failure_still_reloads [OF ex_read ex_update id_codec_dump, of FailUntouched]
  by (simp add: ex_world_def)

text \<open>
  C16. A successful registration writes the dumped document to the configuration path,
  logs the outcome of the target check and then \<open>Prometheus config updated\<close>, and
  only after the write issues exactly one request: the POST to the reload endpoint.
\<close>

theorem registration_success:
  assumes "read_config cd path w = Some d" and "update_config t d = MDone a d'"
    and "dump cd d' = Some c" and "write_faults w path = NoFault"
  shows "update_prometheus_yml cd path t w =
     Normal (w\<lparr>files := (files w)(path \<mapsto> c),
               console := console w @ [if a then TargetAdded t else TargetExists t, ConfigUpdated],
               outbox := outbox w @ [Post reload_url]\<rparr>)"
  using update_prometheus_yml_done [OF assms(1,2)] assms(3,4)
  by (simp add: write_config_ok console_log_def send_reload_def)

theorem registration_success_witness:
  "update_prometheus_yml id_codec ex_path ''10.0.0.2:8000'' (ex_world NoFault) =
     Normal \<lparr>files = [ex_path \<mapsto> prom_doc [JStr ''10.0.0.1:8000'', JStr ''10.0.0.2:8000'']],
       write_faults = (\<lambda>_. NoFault), console = [TargetAdded ''10.0.0.2:8000'', ConfigUpdated],
       outbox = [Post reload_url]\<rparr>"
  using registration_success [OF ex_read ex_update id_codec_dump, of NoFault]
  by (simp add: ex_world_def)

text \<open>
  C17. When the job is missing (or the document has no \<open>scrape_configs\<close> list) the
  function returns before the write and before the reload: the file is not touched and
  no request is sent. This settles the spec's open question for this code: no reload
  after \<open>JobNotFound\<close>.
\<close>

theorem missing_job_no_reload:
  assumes "read_config cd path w = Some d" and "update_config t d = MReturn r"
  shows "\<exists>e. update_prometheus_yml cd path t w = Normal (w\<lparr>console := console w @ [e]\<rparr>)"
  using assms by (cases r) (auto simp: update_prometheus_yml_def console_log_def)

theorem missing_job_no_reload_witness:
  "\<exists>e. update_prometheus_yml id_codec ex_path ''10.0.0.2:8000''
      \<lparr>files = [ex_path \<mapsto> JObj [(''scrape_configs'', JArr [])]], write_faults = (\<lambda>_. NoFault),
       console = [], outbox = []\<rparr> =
    Normal \<lparr>files = [ex_path \<mapsto> JObj [(''scrape_configs'', JArr [])]], write_faults = (\<lambda>_. NoFault),
       console = [e], outbox = []\<rparr>"
proof -
  have r: "read_config id_codec ex_path
      \<lparr>files = [ex_path \<mapsto> JObj [(''scrape_configs'', JArr [])]], write_faults = (\<lambda>_. NoFault),
       console = [], outbox = []\<rparr> = Some (JObj [(''scrape_configs'', JArr [])])"
    by (simp add: read_config_def id_codec_def)
  have u: "update_config ''10.0.0.2:8000'' (JObj [(''scrape_configs'', JArr [])]) = MReturn JobNotFound"
    by (simp add: update_config_def)
  from missing_job_no_reload [OF r u] show ?thesis by simp
qed

text \<open>
  C18. The write is a direct overwrite, not write-then-rename: a write that fails
  part-way leaves the truncated content in place of the configuration, the error is
  swallowed, and the reload is still requested.
\<close>

theorem partial_write_corrupts:
  assumes "read_config cd path w = Some d" and "update_config t d = MDone a d'"
    and "dump cd d' = Some c" and "write_faults w path = FailPartial c'"
  shows "\<exists>w'. update_prometheus_yml cd path t w = Normal w' \<and> files w' path = Some c' \<and>
           outbox w' = outbox w @ [Post reload_url]"
  using update_prometheus_yml_done [OF assms(1,2)] assms(3,4)
  by (simp add: write_config_def console_log_def send_reload_def)

theorem partial_write_corrupts_witness:
  "\<exists>w'. update_prometheus_yml id_codec ex_path ''10.0.0.2:8000'' (ex_world (FailPartial (JStr ''trunc''))) = Normal w' \<and>
     files w' ex_path = Some (JStr ''trunc'') \<and> outbox w' = [Post reload_url]"
  using partial_write_corrupts [OF ex_read ex_update id_codec_dump, of "FailPartial (JStr ''trunc'')"]
  by (simp add: ex_world_def)

text \<open>
  C19. Two start-ups of the module against the same file leave it as the first one
  wrote it, provided js-yaml reads back what it dumps and the writes succeed: the
  idempotence of the mutation lifted to the file.
\<close>

theorem registration_idempotent_file:
  assumes rt: "codec_roundtrip cd" and ok: "write_faults w path = NoFault"
    and run1: "update_prometheus_yml cd path t w = Normal w1"
    and run2: "update_prometheus_yml cd path t w1 = Normal w2"
  shows "files w2 path = files w1 path"
proof (cases "read_config cd path w")
  case None
  with run1 have "w1 = console_log ReadConfigError w" by (simp add: update_prometheus_yml_def)
  then have "read_config cd path w1 = None" using None by (simp add: read_config_def console_log_def)
  with run2 \<open>w1 = _\<close> show ?thesis by (auto simp: update_prometheus_yml_def console_log_def)
next
  case (Some d)
  show ?thesis
  proof (cases "update_config t d")
    case MThrow
    with run1 Some show ?thesis by (simp add: update_prometheus_yml_def)
  next
    case (MReturn r)
    with run1 Some have "files w1 = files w" by (cases r) (auto simp: update_prometheus_yml_def console_log_def)
    then have "read_config cd path w1 = Some d" using Some by (simp add: read_config_def)
    with run2 MReturn show ?thesis by (cases r) (auto simp: update_prometheus_yml_def console_log_def)
  next
    case (MDone a d')
    show ?thesis
    proof (cases "dump cd d'")
      case None
      with run1 Some MDone have "files w1 = files w"
        by (auto simp: update_prometheus_yml_def write_config_def console_log_def send_reload_def)
      then have "read_config cd path w1 = Some d" using Some by (simp add: read_config_def)
      with run2 MDone None show ?thesis
        by (auto simp: update_prometheus_yml_def write_config_def console_log_def send_reload_def)
    next
      case (Some c)
      from registration_success [OF \<open>read_config cd path w = Some d\<close> MDone Some ok] run1
      have w1: "files w1 = (files w)(path \<mapsto> c)" "write_faults w1 = write_faults w" by auto
      with rt Some have rd: "read_config cd path w1 = Some d'"
        by (simp add: read_config_def codec_roundtrip_def)
      from update_config_rerun [OF MDone] obtain a' where "update_config t d' = MDone a' d'" by blast
      from registration_success [OF rd this Some] ok w1 run2 have "files w2 = (files w1)(path \<mapsto> c)"
        by auto
      with w1 show ?thesis by simp
    qed
  qed
qed

theorem registration_idempotent_file_witness:
  "files (ex_world NoFault\<lparr>files := [ex_path \<mapsto> prom_doc [JStr ''10.0.0.1:8000'', JStr ''10.0.0.2:8000'']],
      console := [TargetAdded ''10.0.0.2:8000'', ConfigUpdated, TargetExists ''10.0.0.2:8000'', ConfigUpdated],
      outbox := [Post reload_url, Post reload_url]\<rparr>) ex_path =
   files (ex_world NoFault\<lparr>files := [ex_path \<mapsto> prom_doc [JStr ''10.0.0.1:8000'', JStr ''10.0.0.2:8000'']],
      console := [TargetAdded ''10.0.0.2:8000'', ConfigUpdated], outbox := [Post reload_url]\<rparr>) ex_path"
proof (rule registration_idempotent_file)
  show "codec_roundtrip id_codec" by (simp add: codec_roundtrip_def id_codec_def)
  show "write_faults (ex_world NoFault) ex_path = NoFault" by (simp add: ex_world_def)
  show "update_prometheus_yml id_codec ex_path ''10.0.0.2:8000'' (ex_world NoFault) =
     Normal (ex_world NoFault\<lparr>files := [ex_path \<mapsto> prom_doc [JStr ''10.0.0.1:8000'', JStr ''10.0.0.2:8000'']],
      console := [TargetAdded ''10.0.0.2:8000'', ConfigUpdated], outbox := [Post reload_url]\<rparr>)"
    by (simp add: update_prometheus_yml_def write_config_def console_log_def send_reload_def ex_world_def
        read_config_def id_codec_def update_config_eval prom_doc_def)
  show "update_prometheus_yml id_codec ex_path ''10.0.0.2:8000''
     (ex_world NoFault\<lparr>files := [ex_path \<mapsto> prom_doc [JStr ''10.0.0.1:8000'', JStr ''10.0.0.2:8000'']],
      console := [TargetAdded ''10.0.0.2:8000'', ConfigUpdated], outbox := [Post reload_url]\<rparr>) =
     Normal (ex_world NoFault\<lparr>files := [ex_path \<mapsto> prom_doc [JStr ''10.0.0.1:8000'', JStr ''10.0.0.2:8000'']],
      console := [TargetAdded ''10.0.0.2:8000'', ConfigUpdated, TargetExists ''10.0.0.2:8000'', ConfigUpdated],
      outbox := [Post reload_url, Post reload_url]\<rparr>)"
    by (simp add: update_prometheus_yml_def write_config_def console_log_def send_reload_def ex_world_def
        read_config_def id_codec_def update_config_eval prom_doc_def)
qed

text \<open>
  Start-up throws exactly when the document mutation throws on the configuration
  read at start-up; every other failure (missing or unparsable file, missing scrape
  list or job, failed write) is logged and start-up goes on to \<open>app.listen\<close>.
\<close>

lemma boot_throws_iff:
  "(\<exists>w'. boot cd h w = Thrown w') \<longleftrightarrow>
   (\<exists>d. read_config cd (config_path h) w = Some d \<and>
        update_config (target_address (net_ifaces h) (env_port h)) d = MThrow)"
  by (auto simp: boot_def update_prometheus_yml_def read_config_def Let_def
      split: option.splits mutation.splits abort.splits prod.splits)


text \<open>
  C12. On a well-formed configuration start-up never crashes, whatever the address,
  the job list or the write faults: the crashes of C14 and C20 come only from
  malformed documents.
\<close>

theorem wf_config_never_crashes:
  assumes "read_config cd (config_path h) w = Some d" and "wf_doc d"
  shows "\<exists>w'. boot cd h w = Normal w'"
proof -
  from wf_doc_no_throw [OF assms(2)] assms(1) boot_throws_iff [of cd h w]
  have "\<not> (\<exists>w'. boot cd h w = Thrown w')" by auto
  with completion_cases [of "boot cd h w"] show ?thesis by blast
qed

theorem wf_config_never_crashes_witness:
  "\<exists>w'. boot id_codec ex_host (ex_world NoFault) = Normal w'"
proof -
  have cp: "config_path ex_host = ex_path" by (simp add: config_path_def ex_host_def ex_path_def)
  have "read_config id_codec (config_path ex_host) (ex_world NoFault) = Some (prom_doc [JStr ''10.0.0.1:8000''])"
    by (simp add: cp)
  from wf_config_never_crashes [OF this prom_doc_wf] show ?thesis .
qed



end
