(* ===== verification/Metrics.thy ===== *)
theory Metrics
  imports Prelude Complex_Main
begin

text \<open>
  The metrics registry of \<open>src/index.js\<close> (lines 181--205): the counter
  \<open>total_req\<close> and the histogram \<open>http_express_req_res_time\<close> with its nine bucket
  bounds, labelled by method, route and status code, and the \<open>response-time\<close>
  callback that increments the one and observes the other. The histogram follows
  prom-client: per label set it keeps one non-cumulative count per bound, incremented
  at the first bound the value does not exceed (no bound: only the count grows), a sum
  and a count; the exposition makes the counts cumulative and adds \<open>+Inf\<close>, equal to
  the count. Latencies are milliseconds as \<open>rat\<close>. The default process metrics of
  \<open>collectDefaultMetrics\<close> are registered in the registry (line 182); their values
  are readings of the operating system taken when the registry is scraped, so the
  exposition takes them as an input and lists them only once they are registered.
\<close>

definition req_res_buckets :: "rat list" where
  "req_res_buckets = [1, 50, 100, 200, 400, 500, 800, 1000, 2000]"

record req_labels =
  lbl_method :: string
  lbl_route :: string
  lbl_status :: nat

record hist_entry =
  bucket_values :: "nat list"
  hsum :: rat
  hcount :: nat

text \<open>The global registry \<open>client.register\<close>: whether the default process metrics
  are registered in it (line 182), and the values of the counter and the histogram
  (lines 184--194).\<close>

record registry =
  default_metrics :: bool
  total_req :: nat
  req_res_time :: "(req_labels \<times> hist_entry) list"

definition empty_registry :: registry where
  "empty_registry = \<lparr>default_metrics = False, total_req = 0, req_res_time = []\<rparr>"

text \<open>Lines 181--182: \<open>collectDefaultMetrics({ register: client.register })\<close>
  registers prom-client's default process metrics in the registry.\<close>

definition collect_default_metrics :: "registry \<Rightarrow> registry" where
  "collect_default_metrics r = r\<lparr>default_metrics := True\<rparr>"

text \<open>The registry as the module builds it: the default metrics, then the histogram and
  the counter, both at zero.\<close>

definition app_registry :: registry where
  "app_registry = collect_default_metrics empty_registry"

text \<open>prom-client's \<open>findBound\<close>: the position of the first bound not below the
  value.\<close>

fun find_bound :: "rat list \<Rightarrow> rat \<Rightarrow> nat option" where
  "find_bound [] v = None"
| "find_bound (b # bs) v = (if v \<le> b then Some 0 else map_option Suc (find_bound bs v))"

definition base_entry :: hist_entry where
  "base_entry = \<lparr>bucket_values = replicate (length req_res_buckets) 0, hsum = 0, hcount = 0\<rparr>"

definition entry_observe :: "rat \<Rightarrow> hist_entry \<Rightarrow> hist_entry" where
  "entry_observe v e =
     e\<lparr>hsum := hsum e + v, hcount := Suc (hcount e),
       bucket_values := (case find_bound req_res_buckets v of
                           Some i \<Rightarrow> (bucket_values e)[i := Suc (bucket_values e ! i)]
                         | None \<Rightarrow> bucket_values e)\<rparr>"

text \<open>\<open>reqResTime.labels(l).observe(v)\<close>: a new label set starts from zero counts
  and is appended to the table.\<close>

definition hist_observe :: "req_labels \<Rightarrow> rat \<Rightarrow> (req_labels \<times> hist_entry) list \<Rightarrow>
    (req_labels \<times> hist_entry) list" where
  "hist_observe l v tbl =
     assoc_set tbl l (entry_observe v (case map_of tbl l of Some e \<Rightarrow> e | None \<Rightarrow> base_entry))"

text \<open>The callback of \<open>responseTime\<close> (lines 196--205), run once per request when its
  headers are written: \<open>totalReqCounter.inc()\<close>, then the observation under the
  request's method, its raw \<open>req.url\<close> and the response status.\<close>

definition observe_request :: "string \<Rightarrow> string \<Rightarrow> nat \<Rightarrow> rat \<Rightarrow> registry \<Rightarrow> registry" where
  "observe_request meth url status time r =
     r\<lparr>total_req := Suc (total_req r),
       req_res_time := hist_observe \<lparr>lbl_method = meth, lbl_route = url, lbl_status = status\<rparr> time
                         (req_res_time r)\<rparr>"

text \<open>The exposition of \<open>client.register.metrics()\<close> for these two metrics: the
  counter's value and, per label set, the cumulative bucket counts ending with
  \<open>+Inf\<close>, the sum and the count.\<close>

fun cumulate :: "nat \<Rightarrow> nat list \<Rightarrow> nat list" where
  "cumulate acc [] = []"
| "cumulate acc (x # xs) = (acc + x) # cumulate (acc + x) xs"

record hist_sample =
  smp_labels :: req_labels
  smp_buckets :: "nat list"
  smp_sum :: rat
  smp_count :: nat

text \<open>A default process metric read when the registry is scraped: its name and its
  value, which come from the operating system (CPU time, memory, event-loop lag).\<close>

type_synonym process_sample = "string \<times> rat"

record exposition =
  exp_process :: "process_sample list"
  exp_total_req :: nat
  exp_req_res_time :: "hist_sample list"

definition sample_of :: "req_labels \<times> hist_entry \<Rightarrow> hist_sample" where
  "sample_of le =
     \<lparr>smp_labels = fst le, smp_buckets = cumulate 0 (bucket_values (snd le)) @ [hcount (snd le)],
      smp_sum = hsum (snd le), smp_count = hcount (snd le)\<rparr>"

definition snapshot :: "registry \<Rightarrow> process_sample list \<Rightarrow> exposition" where
  "snapshot r ps =
     \<lparr>exp_process = (if default_metrics r then ps else []), exp_total_req = total_req r,
      exp_req_res_time = map sample_of (req_res_time r)\<rparr>"

text \<open>A sequence of observed requests, as label set and latency, from the empty
  registry.\<close>

definition record_all :: "(req_labels \<times> rat) list \<Rightarrow> registry \<Rightarrow> registry" where
  "record_all obs r =
     fold (\<lambda>(l, v). observe_request (lbl_method l) (lbl_route l) (lbl_status l) v) obs r"

definition obs_of :: "req_labels \<Rightarrow> (req_labels \<times> rat) list \<Rightarrow> rat list" where
  "obs_of l obs = map snd (filter (\<lambda>x. fst x = l) obs)"

text \<open>What an entry must hold after the observations \<open>vs\<close>: the count, the sum, and
  for every bound the number of observations not above it, as the cumulative count.\<close>

definition entry_ok :: "rat list \<Rightarrow> hist_entry \<Rightarrow> bool" where
  "entry_ok vs e \<longleftrightarrow>
     length (bucket_values e) = length req_res_buckets \<and> hcount e = length vs \<and> hsum e = sum_list vs \<and>
     (\<forall>k < length req_res_buckets.
        sum_list (take (Suc k) (bucket_values e)) = length (filter (\<lambda>v. v \<le> req_res_buckets ! k) vs))"

definition table_ok :: "(req_labels \<times> rat) list \<Rightarrow> (req_labels \<times> hist_entry) list \<Rightarrow> bool" where
  "table_ok obs tbl \<longleftrightarrow>
     (\<forall>l. case map_of tbl l of None \<Rightarrow> obs_of l obs = [] | Some e \<Rightarrow> entry_ok (obs_of l obs) e)"

section \<open>Lemmas\<close>

lemma cumulate_nth:
  "k < length xs \<Longrightarrow> cumulate acc xs ! k = acc + sum_list (take (Suc k) xs)"
proof (induction xs arbitrary: acc k)
  case (Cons x xs)
  then show ?case by (cases k) auto
qed simp

lemma length_cumulate [simp]: "length (cumulate acc xs) = length xs"
  by (induction xs arbitrary: acc) auto

lemma sum_take_bump:
  "i < length xs \<Longrightarrow>
   sum_list (take (Suc k) (xs[i := Suc (xs ! i)])) = sum_list (take (Suc k) xs) + (if i \<le> k then 1 else 0)"
proof (induction xs arbitrary: i k)
  case (Cons x xs)
  then show ?case by (cases i; cases k) auto
qed simp

lemma find_bound_Some:
  "find_bound bs v = Some i \<Longrightarrow> i < length bs \<and> v \<le> bs ! i \<and> (\<forall>j < i. \<not> v \<le> bs ! j)"
proof (induction bs arbitrary: i)
  case (Cons b bs)
  then show ?case by (auto simp: less_Suc_eq_0_disj split: if_splits)
qed simp

lemma find_bound_None: "find_bound bs v = None \<Longrightarrow> \<forall>k < length bs. \<not> v \<le> bs ! k"
proof (induction bs)
  case (Cons b bs)
  then show ?case by (auto simp: less_Suc_eq_0_disj split: if_splits)
qed simp

lemma sorted_req_res_buckets: "sorted_wrt (<) req_res_buckets"
  by (simp add: req_res_buckets_def)

text \<open>With increasing bounds, a value is below bound \<open>k\<close> exactly when its own
  bucket is at or before \<open>k\<close>.\<close>

lemma find_bound_le:
  assumes "sorted_wrt (<) bs" "find_bound bs v = Some i" "k < length bs"
  shows "v \<le> bs ! k \<longleftrightarrow> i \<le> k"
proof
  assume "v \<le> bs ! k"
  with find_bound_Some [OF assms(2)] show "i \<le> k" by (meson not_le)
next
  assume "i \<le> k"
  with find_bound_Some [OF assms(2)] assms(1,3) show "v \<le> bs ! k"
    by (metis dual_order.order_iff_strict order.trans sorted_wrt_iff_nth_less)
qed

lemma entry_ok_base: "entry_ok [] base_entry"
  by (simp add: entry_ok_def base_entry_def)

lemma entry_ok_observe:
  assumes "entry_ok vs e"
  shows "entry_ok (vs @ [v]) (entry_observe v e)"
proof (cases "find_bound req_res_buckets v")
  case None
  with find_bound_None [OF None] assms show ?thesis
    by (simp add: entry_ok_def entry_observe_def)
next
  case (Some i)
  from find_bound_Some [OF Some] have i: "i < length req_res_buckets" by simp
  have "v \<le> req_res_buckets ! k \<longleftrightarrow> i \<le> k" if "k < length req_res_buckets" for k
    using find_bound_le [OF sorted_req_res_buckets Some that] .
  with assms i Some show ?thesis
    by (simp add: entry_ok_def entry_observe_def sum_take_bump)
qed

lemma req_labels_eta [simp]:
  "\<lparr>lbl_method = lbl_method l, lbl_route = lbl_route l, lbl_status = lbl_status l\<rparr> = l"
  by (cases l) simp

lemma obs_of_snoc [simp]:
  "obs_of l (obs @ [(l', v)]) = (if l' = l then obs_of l obs @ [v] else obs_of l obs)"
  by (simp add: obs_of_def)

lemma table_ok_observe:
  assumes "table_ok obs tbl"
  shows "table_ok (obs @ [(l, v)]) (hist_observe l v tbl)"
  unfolding table_ok_def
proof
  fix l'
  show "case map_of (hist_observe l v tbl) l' of None \<Rightarrow> obs_of l' (obs @ [(l, v)]) = []
        | Some e \<Rightarrow> entry_ok (obs_of l' (obs @ [(l, v)])) e"
  proof (cases "l' = l")
    case True
    from assms have "entry_ok (obs_of l obs) (case map_of tbl l of Some e \<Rightarrow> e | None \<Rightarrow> base_entry)"
      by (auto simp: table_ok_def entry_ok_base split: option.splits dest: spec [of _ l])
    with True show ?thesis by (simp add: hist_observe_def map_of_assoc_set entry_ok_observe)
  next
    case False
    have old: "case map_of tbl l' of None \<Rightarrow> obs_of l' obs = [] | Some e \<Rightarrow> entry_ok (obs_of l' obs) e"
      using assms by (simp add: table_ok_def)
    have m: "map_of (hist_observe l v tbl) l' = map_of tbl l'"
      using False by (simp add: hist_observe_def map_of_assoc_set)
    have o: "obs_of l' (obs @ [(l, v)]) = obs_of l' obs"
      using False by (auto simp: obs_of_def)
    from old show ?thesis unfolding m o .
  qed
qed

lemma hcount_entry_observe [simp]: "hcount (entry_observe v e) = Suc (hcount e)"
  by (simp add: entry_observe_def)

lemma sum_hcount_observe:
  "sum_list (map (\<lambda>le. hcount (snd le)) (hist_observe l v tbl)) = Suc (sum_list (map (\<lambda>le. hcount (snd le)) tbl))"
proof (induction tbl)
  case Nil
  then show ?case by (simp add: hist_observe_def base_entry_def)
next
  case (Cons le tbl)
  then show ?case by (cases le) (auto simp: hist_observe_def)
qed

text \<open>Recording a sequence of requests: the counter counts them, the histogram's
  counts add up to the same number, and every entry holds its observations.\<close>

lemma record_all_invariant:
  assumes "table_ok obs0 (req_res_time r)"
    and "total_req r = sum_list (map (\<lambda>le. hcount (snd le)) (req_res_time r))"
  shows "table_ok (obs0 @ obs) (req_res_time (record_all obs r)) \<and>
         total_req (record_all obs r) = total_req r + length obs \<and>
         total_req (record_all obs r) = sum_list (map (\<lambda>le. hcount (snd le)) (req_res_time (record_all obs r)))"
  using assms
proof (induction obs arbitrary: obs0 r)
  case Nil
  then show ?case by (simp add: record_all_def)
next
  case (Cons lv obs)
  obtain l v where lv: "lv = (l, v)" by (cases lv)
  let ?r' = "observe_request (lbl_method l) (lbl_route l) (lbl_status l) v r"
  have "table_ok (obs0 @ [(l, v)]) (req_res_time ?r')"
    using Cons.prems(1) by (simp add: observe_request_def table_ok_observe)
  moreover have "total_req ?r' = sum_list (map (\<lambda>le. hcount (snd le)) (req_res_time ?r'))"
    using Cons.prems(2) by (simp add: observe_request_def sum_hcount_observe)
  ultimately have "table_ok ((obs0 @ [(l, v)]) @ obs) (req_res_time (record_all obs ?r')) \<and>
      total_req (record_all obs ?r') = total_req ?r' + length obs \<and>
      total_req (record_all obs ?r') = sum_list (map (\<lambda>le. hcount (snd le)) (req_res_time (record_all obs ?r')))"
    by (rule Cons.IH)
  with lv show ?case by (simp add: record_all_def observe_request_def)
qed

lemma record_all_empty:
  "table_ok obs (req_res_time (record_all obs empty_registry)) \<and>
   total_req (record_all obs empty_registry) = length obs \<and>
   total_req (record_all obs empty_registry) =
     sum_list (map (\<lambda>le. hcount (snd le)) (req_res_time (record_all obs empty_registry)))"
  using record_all_invariant [of "[]" empty_registry obs]
  by (simp add: empty_registry_def table_ok_def obs_of_def)



lemma distinct_record_all:
  "distinct (map fst (req_res_time r)) \<Longrightarrow> distinct (map fst (req_res_time (record_all obs r)))"
proof (induction obs arbitrary: r)
  case (Cons lv obs)
  then show ?case
    by (cases lv) (simp add: record_all_def observe_request_def hist_observe_def distinct_assoc_set)
qed (simp add: record_all_def)


lemma record_all_labels:
  "fst ` set (req_res_time (record_all obs r)) = fst ` set (req_res_time r) \<union> fst ` set obs"
proof (induction obs arbitrary: r)
  case (Cons lv obs)
  then show ?case
    by (cases lv) (auto simp: record_all_def observe_request_def hist_observe_def assoc_set_key_set)
qed (simp add: record_all_def)

text \<open>One series per distinct label set.\<close>

lemma series_count:
  "length (req_res_time (record_all obs empty_registry)) = card (fst ` set obs)"
proof -
  have "distinct (map fst (req_res_time (record_all obs empty_registry)))"
    by (rule distinct_record_all) (simp add: empty_registry_def)
  then have "length (req_res_time (record_all obs empty_registry)) =
      card (set (map fst (req_res_time (record_all obs empty_registry))))"
    using distinct_card by fastforce
  also have "\<dots> = card (fst ` set obs)"
    using record_all_labels [of obs empty_registry] by (simp add: empty_registry_def)
  finally show ?thesis .
qed

text \<open>Observing requests leaves the registration of the default metrics alone.\<close>

lemma observe_request_collect:
  "observe_request m u c v (collect_default_metrics r) = collect_default_metrics (observe_request m u c v r)"
  by (simp add: observe_request_def collect_default_metrics_def)

lemma record_all_collect [simp]:
  "record_all obs (collect_default_metrics r) = collect_default_metrics (record_all obs r)"
  by (induction obs arbitrary: r) (auto simp: record_all_def observe_request_collect)

lemma collect_default_metrics_fields [simp]:
  "total_req (collect_default_metrics r) = total_req r"
  "req_res_time (collect_default_metrics r) = req_res_time r"
  "default_metrics (collect_default_metrics r) = True"
  by (simp_all add: collect_default_metrics_def)

lemma app_registry_fields [simp]:
  "default_metrics app_registry" "total_req app_registry = 0" "req_res_time app_registry = []"
  by (simp_all add: app_registry_def collect_default_metrics_def empty_registry_def)

lemmas metrics_eval = record_all_def observe_request_def hist_observe_def entry_observe_def
  base_entry_def req_res_buckets_def empty_registry_def snapshot_def sample_of_def

section \<open>Properties\<close>

text \<open>
  C22. The histogram is the spec's latency record: after any sequence of requests, the
  series of a label set counts the requests with those labels, sums their latencies,
  and its cumulative bucket \<open>le\<close> counts those whose latency does not exceed the
  bound.
\<close>

theorem histogram_counts:
  assumes "map_of (req_res_time (record_all obs empty_registry)) l = Some e"
    and "k < length req_res_buckets"
  shows "cumulate 0 (bucket_values e) ! k = length (filter (\<lambda>v. v \<le> req_res_buckets ! k) (obs_of l obs)) \<and>
         hcount e = length (obs_of l obs) \<and> hsum e = sum_list (obs_of l obs)"
proof -
  from record_all_empty [of obs] assms(1) have "entry_ok (obs_of l obs) e"
    by (auto simp: table_ok_def dest: spec [of _ l])
  with assms(2) show ?thesis by (simp add: entry_ok_def cumulate_nth)
qed

theorem histogram_counts_witness:
  "map_of (req_res_time (record_all [(\<lparr>lbl_method = ''GET'', lbl_route = ''/'', lbl_status = 200\<rparr>, 3 / 2)]
      empty_registry)) \<lparr>lbl_method = ''GET'', lbl_route = ''/'', lbl_status = 200\<rparr> =
     Some \<lparr>bucket_values = [0, 1, 0, 0, 0, 0, 0, 0, 0], hsum = 3 / 2, hcount = 1\<rparr> \<and>
   cumulate 0 [0, 1, 0, 0, 0, 0, 0, 0, 0] ! 1 =
     length (filter (\<lambda>v. v \<le> req_res_buckets ! 1)
       (obs_of \<lparr>lbl_method = ''GET'', lbl_route = ''/'', lbl_status = 200\<rparr>
          [(\<lparr>lbl_method = ''GET'', lbl_route = ''/'', lbl_status = 200\<rparr>, 3 / 2)]))"
proof -
  have m: "map_of (req_res_time (record_all [(\<lparr>lbl_method = ''GET'', lbl_route = ''/'', lbl_status = 200\<rparr>, 3 / 2)]
      empty_registry)) \<lparr>lbl_method = ''GET'', lbl_route = ''/'', lbl_status = 200\<rparr> =
     Some \<lparr>bucket_values = [0, 1, 0, 0, 0, 0, 0, 0, 0], hsum = 3 / 2, hcount = 1\<rparr>"
    by (simp add: metrics_eval)
  from histogram_counts [OF m, of 1] m show ?thesis by (simp add: req_res_buckets_def obs_of_def)
qed

text \<open>
  The counter and the histogram agree: after any sequence of requests both have
  counted every request exactly once.
\<close>

lemma counter_matches_histogram:
  "total_req (record_all obs empty_registry) = length obs \<and>
   total_req (record_all obs empty_registry) =
     sum_list (map (\<lambda>le. hcount (snd le)) (req_res_time (record_all obs empty_registry)))"
  using record_all_empty [of obs] by simp



end
