(* ===== verification/Http.thy ===== *)
theory Http
  imports JsValue Metrics
begin

text \<open>
  The Express application of \<open>src/index.js\<close> (lines 207--232): three GET routes
  registered in the order \<open>/\<close>, \<open>/slow\<close>, \<open>/metrics\<close>, matched as Express does
  by default (a GET route also answers HEAD; the path, without the query string, is
  compared case-insensitively and may end in one extra slash), and the 404 that
  Express's final handler sends for any other request. A response is its status, its
  body and its \<open>Content-Type\<close> (JSON from \<open>res.json\<close>, the exposition type set on
  line 229, HTML for the 404). The handlers are pure here: the
  \<open>/slow\<close> handler's wait is split into its start and its completion in
  \<open>Service\<close>, and \<open>doSomeHeavyTask\<close> (from \<open>./util\<close>, not part of the sources)
  is the outcome it delivers: a duration in milliseconds or an error.
\<close>

record http_req =
  req_method :: string
  req_url :: string

datatype resp_body = JsonBody jval | MetricsText exposition | NotFoundPage string | EmptyBody

record http_resp =
  status :: nat
  body :: resp_body
  content_type :: string

datatype task_outcome = TaskDone nat | TaskFailed string

text \<open>The lines \<open>logger\<close> ships to Loki.\<close>

datatype loki_line = LokiInfo string | LokiError string

section \<open>Routing\<close>

definition lower_char :: "char \<Rightarrow> char" where
  "lower_char c =
     (case map_of (zip ''ABCDEFGHIJKLMNOPQRSTUVWXYZ'' ''abcdefghijklmnopqrstuvwxyz'') c of
        Some d \<Rightarrow> d | None \<Rightarrow> c)"

definition request_path :: "string \<Rightarrow> string" where
  "request_path url = takeWhile (\<lambda>c. c \<noteq> CHR ''?'') url"

definition route_matches :: "string \<Rightarrow> http_req \<Rightarrow> bool" where
  "route_matches route req \<longleftrightarrow>
     (req_method req = ''GET'' \<or> req_method req = ''HEAD'') \<and>
     (let p = map lower_char (request_path (req_url req))
      in p = route \<or> (route \<noteq> ''/'' \<and> p = route @ ''/''))"

datatype route = RootRoute | SlowRoute | MetricsRoute | NoRoute

text \<open>Lines 207, 212, 228: the first registered route that matches handles the
  request.\<close>

definition route_of :: "http_req \<Rightarrow> route" where
  "route_of req =
     (if route_matches ''/'' req then RootRoute
      else if route_matches ''/slow'' req then SlowRoute
      else if route_matches ''/metrics'' req then MetricsRoute
      else NoRoute)"

section \<open>Handlers\<close>

text \<open>The \<open>Content-Type\<close> each response carries: \<open>res.json\<close> sets the JSON type
  (lines 209, 216, 224), line 229 sets prom-client's \<open>register.contentType\<close>, and
  Express's final handler answers a 404 as HTML.\<close>

definition json_type :: string where
  "json_type = ''application/json; charset=utf-8''"

definition exposition_type :: string where
  "exposition_type = ''text/plain; version=0.0.4; charset=utf-8''"

definition html_type :: string where
  "html_type = ''text/html; charset=utf-8''"

text \<open>Lines 207--210.\<close>

definition hello_body :: jval where
  "hello_body = JObj [(''message'', JStr ''Hello from Express Server'')]"

definition handle_root :: "http_resp \<times> loki_line list" where
  "handle_root = (\<lparr>status = 200, body = JsonBody hello_body, content_type = json_type\<rparr>, [LokiInfo ''Req came on / router''])"

text \<open>Lines 215--225, after the \<open>await\<close>: the success body interpolates the
  duration; the failure logs the error's message and answers a generic 500.\<close>

definition slow_response :: "task_outcome \<Rightarrow> http_resp \<times> loki_line list" where
  "slow_response r =
     (case r of
        TaskDone ms \<Rightarrow>
          (\<lparr>status = 200, body = JsonBody (JObj [(''status'', JStr ''Success''),
             (''message'', JStr (''Heavy Task completed in '' @ js_to_string (JNum (int ms)) @ ''ms''))]),
            content_type = json_type\<rparr>, [])
      | TaskFailed msg \<Rightarrow>
          (\<lparr>status = 500, body = JsonBody (JObj [(''status'', JStr ''Error''),
             (''error'', JStr ''Internal Server Error'')]), content_type = json_type\<rparr>, [LokiError msg]))"

text \<open>Lines 228--232: the header of line 229, and the body is the registry's
  exposition at the time the handler runs, with the process readings \<open>ps\<close> the
  default metrics take at that moment.\<close>

definition handle_metrics :: "registry \<Rightarrow> process_sample list \<Rightarrow> http_resp" where
  "handle_metrics r ps =
     \<lparr>status = 200, body = MetricsText (snapshot r ps), content_type = exposition_type\<rparr>"

text \<open>Express's final handler for a request no route takes.\<close>

definition not_found :: "http_req \<Rightarrow> http_resp" where
  "not_found req =
     \<lparr>status = 404, body = NotFoundPage (''Cannot '' @ req_method req @ '' '' @ request_path (req_url req)),
      content_type = html_type\<rparr>"

text \<open>What the client receives: Express's \<open>res.send\<close> (behind \<open>res.json\<close>) ends a
  HEAD answer without its body, keeping the status and the headers.\<close>

definition express_send :: "http_req \<Rightarrow> http_resp \<Rightarrow> http_resp" where
  "express_send req resp = (if req_method req = ''HEAD'' then resp\<lparr>body := EmptyBody\<rparr> else resp)"

section \<open>Lemmas\<close>

lemma express_send_status [simp]:
  "status (express_send req resp) = status resp" "content_type (express_send req resp) = content_type resp"
  by (simp_all add: express_send_def)

lemma express_send_get [simp]:
  "req_method req = ''GET'' \<Longrightarrow> express_send req resp = resp"
  by (simp add: express_send_def)

lemmas route_eval = route_of_def route_matches_def request_path_def lower_char_def

lemma request_path_query:
  "CHR ''?'' \<notin> set p \<Longrightarrow> request_path (p @ CHR ''?'' # q) = request_path p"
  by (induction p) (auto simp: request_path_def)

section \<open>Properties\<close>

text \<open>
  C24. A failing heavy task is answered with a body that does not depend on the error:
  two failures with different messages give the same response; the message only goes
  to the log.
\<close>

theorem slow_failure_hides_error:
  "fst (slow_response (TaskFailed m1)) = fst (slow_response (TaskFailed m2)) \<and>
   status (fst (slow_response (TaskFailed m1))) = 500 \<and>
   snd (slow_response (TaskFailed m1)) = [LokiError m1]"
  by (simp add: slow_response_def)

text \<open>
  Routing is Express's: the query string is ignored, case does not matter, one
  trailing slash is accepted, HEAD is served by a GET route, and other methods or paths
  fall through to the 404.
\<close>

lemma routing_examples:
  "route_of \<lparr>req_method = ''GET'', req_url = ''/SLOW/?n=1''\<rparr> = SlowRoute \<and>
   route_of \<lparr>req_method = ''HEAD'', req_url = ''/metrics''\<rparr> = MetricsRoute \<and>
   route_of \<lparr>req_method = ''GET'', req_url = ''/?x=1''\<rparr> = RootRoute \<and>
   route_of \<lparr>req_method = ''POST'', req_url = ''/''\<rparr> = NoRoute \<and>
   route_of \<lparr>req_method = ''GET'', req_url = ''/slow/x''\<rparr> = NoRoute"
  by (simp add: route_eval)

text \<open>
  Routing ignores the query string: whatever follows the first \<open>?\<close> of
  \<open>req.url\<close> never changes which handler answers.
\<close>

lemma route_of_ignores_query:
  assumes "CHR ''?'' \<notin> set p"
  shows "route_of \<lparr>req_method = m, req_url = p @ CHR ''?'' # q\<rparr> = route_of \<lparr>req_method = m, req_url = p\<rparr>"
  using request_path_query [OF assms] by (simp add: route_of_def route_matches_def)

lemma route_of_ignores_query_example:
  "CHR ''?'' \<notin> set ''/Metrics'' \<and>
   route_of \<lparr>req_method = ''GET'', req_url = ''/Metrics'' @ CHR ''?'' # ''x=1''\<rparr> = MetricsRoute"
proof -
  have n: "CHR ''?'' \<notin> set ''/Metrics''" by simp
  have "route_of \<lparr>req_method = ''GET'', req_url = ''/Metrics''\<rparr> = MetricsRoute" by (simp add: route_eval)
  with route_of_ignores_query [OF n, of "''GET''" "''x=1''"] n show ?thesis by simp
qed

end
