(* ===== verification/Service.thy ===== *)
theory Service
  imports Registration Http
begin

text \<open>
  The whole process of \<open>src/index.js\<close> as a state machine. The module's top level
  runs first (\<open>boot\<close>): it either throws, and the process dies, or it calls
  \<open>app.listen\<close>. Everything after that comes from the event loop in any order: the
  listening callback, or the server's \<open>error\<close> event when the port cannot be bound,
  the response or the error of the reload request, and requests.
  \<open>/\<close>, \<open>/metrics\<close> and unmatched requests are answered within one callback;
  \<open>/slow\<close> awaits the heavy task, so its start and its completion are two steps and
  any other step may come between them. Every answer runs the \<open>response-time\<close>
  callback, which records the request in the registry.
\<close>

datatype phase = Booting | Started | Listening | ListenFailed | Crashed

record 'c sys =
  world :: "'c world"
  phase :: phase
  reload_pending :: bool
  metrics :: registry
  in_flight :: "http_req list"
  served :: "(http_req \<times> http_resp \<times> rat) list"
  loki :: "loki_line list"
  arrived :: nat

definition init_sys :: "'c world \<Rightarrow> 'c sys" where
  "init_sys w =
     \<lparr>world = w\<lparr>console := [], outbox := []\<rparr>, phase = Booting, reload_pending = False,
      metrics = empty_registry, in_flight = [], served = [], loki = [], arrived = 0\<rparr>"

text \<open>Writing the response: the \<open>response-time\<close> callback (lines 196--205) records
  the request with the status of its response and the measured time; the client receives what
  \<open>res.send\<close> puts on the wire, which for a HEAD request has no body.\<close>

definition answer :: "http_req \<Rightarrow> http_resp \<Rightarrow> rat \<Rightarrow> 'c sys \<Rightarrow> 'c sys" where
  "answer req resp t s =
     s\<lparr>metrics := observe_request (req_method req) (req_url req) (status resp) t (metrics s),
       served := served s @ [(req, express_send req resp, t)]\<rparr>"

definition arrive :: "'c sys \<Rightarrow> 'c sys" where
  "arrive s = s\<lparr>arrived := Suc (arrived s)\<rparr>"

text \<open>Line 235: the listening callback's line.\<close>

definition started_line :: "host \<Rightarrow> log_entry" where
  "started_line h =
     ServerStarted (getExternalIPv4 (net_ifaces h)) (js_to_string (port_value (env_port h)))"

lemma answer_fields [simp]:
  "phase (answer req resp t s) = phase s" "world (answer req resp t s) = world s"
  "reload_pending (answer req resp t s) = reload_pending s" "in_flight (answer req resp t s) = in_flight s"
  "arrived (answer req resp t s) = arrived s"
  by (simp_all add: answer_def)

lemma arrive_fields [simp]:
  "phase (arrive s) = phase s" "world (arrive s) = world s" "reload_pending (arrive s) = reload_pending s"
  "served (arrive s) = served s" "metrics (arrive s) = metrics s" "in_flight (arrive s) = in_flight s"
  by (simp_all add: arrive_def)

inductive sys_step :: "'c codec \<Rightarrow> host \<Rightarrow> 'c sys \<Rightarrow> 'c sys \<Rightarrow> bool" for cd h where
  boot_normal: "phase s = Booting \<Longrightarrow> boot cd h (world s) = Normal w \<Longrightarrow>
     sys_step cd h s (s\<lparr>world := w, phase := Started, reload_pending := (outbox w \<noteq> outbox (world s)),
                          metrics := collect_default_metrics (metrics s)\<rparr>)"
| boot_thrown: "phase s = Booting \<Longrightarrow> boot cd h (world s) = Thrown w \<Longrightarrow>
     sys_step cd h s (s\<lparr>world := w, phase := Crashed\<rparr>)"
| listen: "phase s = Started \<Longrightarrow> port_bindable h \<Longrightarrow>
     sys_step cd h s (s\<lparr>world := console_log (started_line h) (world s), phase := Listening\<rparr>)"
| listen_error: "phase s = Started \<Longrightarrow> \<not> port_bindable h \<Longrightarrow>
     sys_step cd h s (s\<lparr>phase := ListenFailed\<rparr>)"
| reload_response: "reload_pending s \<Longrightarrow> phase s = Started \<or> phase s = Listening \<Longrightarrow>
     sys_step cd h s (s\<lparr>world := console_log (ReloadTriggered code) (world s), reload_pending := False\<rparr>)"
| reload_error: "reload_pending s \<Longrightarrow> phase s = Started \<or> phase s = Listening \<Longrightarrow>
     sys_step cd h s (s\<lparr>world := console_log ReloadError (world s), reload_pending := False\<rparr>)"
| serve_root: "phase s = Listening \<Longrightarrow> route_of req = RootRoute \<Longrightarrow> 0 \<le> t \<Longrightarrow>
     sys_step cd h s (answer req (fst handle_root) t (arrive s\<lparr>loki := loki s @ snd handle_root\<rparr>))"
| serve_metrics: "phase s = Listening \<Longrightarrow> route_of req = MetricsRoute \<Longrightarrow> 0 \<le> t \<Longrightarrow>
     sys_step cd h s (answer req (handle_metrics (metrics s) ps) t (arrive s))"
| serve_unrouted: "phase s = Listening \<Longrightarrow> route_of req = NoRoute \<Longrightarrow> 0 \<le> t \<Longrightarrow>
     sys_step cd h s (answer req (not_found req) t (arrive s))"
| slow_start: "phase s = Listening \<Longrightarrow> route_of req = SlowRoute \<Longrightarrow>
     sys_step cd h s (arrive s\<lparr>in_flight := in_flight s @ [req],
                                loki := loki s @ [LokiInfo ''Req came on /slow router'']\<rparr>)"
| slow_finish: "phase s = Listening \<Longrightarrow> req \<in> set (in_flight s) \<Longrightarrow> 0 \<le> t \<Longrightarrow>
     sys_step cd h s (answer req (fst (slow_response r)) t
                        (s\<lparr>in_flight := remove1 req (in_flight s), loki := loki s @ snd (slow_response r)\<rparr>))"

text \<open>The states reachable from the start on a given host with a given initial world
  (its files and the faults writes will meet).\<close>

inductive reach :: "'c codec \<Rightarrow> host \<Rightarrow> 'c world \<Rightarrow> 'c sys \<Rightarrow> bool" for cd h w0 where
  init: "reach cd h w0 (init_sys w0)"
| step: "reach cd h w0 s \<Longrightarrow> sys_step cd h s s' \<Longrightarrow> reach cd h w0 s'"

text \<open>The request and response of an answer as the observation the registry records.\<close>

definition obs_label :: "http_req \<times> http_resp \<times> rat \<Rightarrow> req_labels \<times> rat" where
  "obs_label x =
     (case x of (req, resp, t) \<Rightarrow>
        (\<lparr>lbl_method = req_method req, lbl_route = req_url req, lbl_status = status resp\<rparr>, t))"

fun is_reload_answer :: "log_entry \<Rightarrow> bool" where
  "is_reload_answer (ReloadTriggered c) = True"
| "is_reload_answer ReloadError = True"
| "is_reload_answer e = False"

definition reload_answers :: "'c world \<Rightarrow> nat" where
  "reload_answers w = length (filter is_reload_answer (console w))"

text \<open>What every reachable state satisfies: the registry is the record of the answered
  requests; every arrived request is answered or in flight, and only \<open>/slow\<close>
  requests are in flight; at most one reload request exists, it is pending until its
  single answer; before listening nothing is served.\<close>

text \<open>The registry the module has built in each phase: nothing before the module
  reaches line 181 (and never, when start-up threw), the default metrics with the
  request metrics at zero after it.\<close>

definition registry_of_phase :: "phase \<Rightarrow> registry" where
  "registry_of_phase p =
     (if p = Started \<or> p = Listening \<or> p = ListenFailed then app_registry else empty_registry)"

definition sys_inv :: "'c sys \<Rightarrow> bool" where
  "sys_inv s \<longleftrightarrow>
     metrics s = record_all (map obs_label (served s)) (registry_of_phase (phase s)) \<and>
     arrived s = length (served s) + length (in_flight s) \<and>
     (\<forall>req \<in> set (in_flight s). route_of req = SlowRoute) \<and>
     (outbox (world s) = [] \<and> \<not> reload_pending s \<and> reload_answers (world s) = 0 \<or>
      outbox (world s) = [Post reload_url] \<and> reload_answers (world s) \<le> 1 \<and>
        (reload_pending s \<longleftrightarrow> reload_answers (world s) = 0)) \<and>
     (phase s = Booting \<longrightarrow> outbox (world s) = [] \<and> console (world s) = []) \<and>
     (phase s \<noteq> Listening \<longrightarrow> served s = [] \<and> arrived s = 0)"

text \<open>Example requests.\<close>

definition get_root :: http_req where
  "get_root = \<lparr>req_method = ''GET'', req_url = ''/''\<rparr>"

definition get_metrics :: http_req where
  "get_metrics = \<lparr>req_method = ''GET'', req_url = ''/metrics''\<rparr>"

definition head_metrics :: http_req where
  "head_metrics = \<lparr>req_method = ''HEAD'', req_url = ''/metrics''\<rparr>"

section \<open>Lemmas\<close>

lemma express_send_examples [simp]:
  "express_send get_root resp = resp" "express_send get_metrics resp = resp"
  by (simp_all add: get_root_def get_metrics_def)

lemma record_all_snoc:
  "record_all (obs @ [(l, v)]) r =
     observe_request (lbl_method l) (lbl_route l) (lbl_status l) v (record_all obs r)"
  by (simp add: record_all_def)

lemma registry_of_phase_simps [simp]:
  "registry_of_phase Booting = empty_registry" "registry_of_phase Started = app_registry"
  "registry_of_phase Listening = app_registry" "registry_of_phase ListenFailed = app_registry"
  "registry_of_phase Crashed = empty_registry"
  by (simp_all add: registry_of_phase_def)

lemma registry_of_phase_counts [simp]:
  "total_req (record_all obs (registry_of_phase p)) = total_req (record_all obs empty_registry)"
  "req_res_time (record_all obs (registry_of_phase p)) = req_res_time (record_all obs empty_registry)"
  by (simp_all add: registry_of_phase_def app_registry_def)

lemma answer_metrics:
  "metrics s = record_all (map obs_label (served s)) r \<Longrightarrow>
   metrics (answer req resp t s) = record_all (map obs_label (served (answer req resp t s))) r"
  by (simp add: answer_def obs_label_def record_all_snoc)

lemma reload_answers_log [simp]:
  "reload_answers (console_log e w) = reload_answers w + (if is_reload_answer e then 1 else 0)"
  by (simp add: reload_answers_def console_log_def)

text \<open>Start-up issues at most the reload request and logs no reload answer.\<close>

lemma boot_shape:
  assumes "boot cd h w = Normal w' \<or> boot cd h w = Thrown w'" and "outbox w = []" and "console w = []"
  shows "(outbox w' = [] \<or> outbox w' = [Post reload_url]) \<and> reload_answers w' = 0"
proof -
  let ?t = "target_address (net_ifaces h) (env_port h)"
  from assms(1) update_prometheus_yml_frame [of cd "config_path h" ?t "console_log (DetectedTarget ?t) w" w']
  obtain es where "console w' = console w @ DetectedTarget ?t # es"
    and "set es \<subseteq> {ReadConfigError, NoScrapeConfigsError, JobNotFoundError, TargetAdded ?t,
                       TargetExists ?t, ConfigUpdated, WriteConfigError}"
    and "outbox w' = outbox w \<or> outbox w' = outbox w @ [Post reload_url]"
    by (auto simp: boot_def Let_def)
  with assms(2,3) show ?thesis
    by (auto simp: reload_answers_def filter_empty_conv dest: subsetD)
qed

lemma boot_thrown_outbox: "boot cd h w = Thrown w' \<Longrightarrow> outbox w' = outbox w"
  by (auto simp: boot_def update_prometheus_yml_def console_log_def Let_def
      split: option.splits mutation.splits abort.splits prod.splits)

lemma sys_step_inv:
  assumes "sys_step cd h s s'" and "sys_inv s"
  shows "sys_inv s'"
  using assms
proof (induction rule: sys_step.induct)
  case (boot_normal s w)
  with boot_shape [of cd h "world s" w] show ?case
    by (auto simp: sys_inv_def registry_of_phase_def app_registry_def record_all_def)
next
  case (boot_thrown s w)
  with boot_shape [of cd h "world s" w] boot_thrown_outbox [of cd h "world s" w]
  show ?case by (auto simp: sys_inv_def registry_of_phase_def)
next
  case (listen s)
  then show ?case by (auto simp: sys_inv_def started_line_def)
next
  case (listen_error s)
  then show ?case by (auto simp: sys_inv_def)
next
  case (reload_response s code)
  then show ?case by (auto simp: sys_inv_def)
next
  case (reload_error s)
  then show ?case by (auto simp: sys_inv_def)
next
  case (serve_root s req t)
  then show ?case by (auto simp: sys_inv_def answer_def arrive_def obs_label_def record_all_snoc)
next
  case (serve_metrics s req t)
  then show ?case by (auto simp: sys_inv_def answer_def arrive_def obs_label_def record_all_snoc)
next
  case (serve_unrouted s req t)
  then show ?case by (auto simp: sys_inv_def answer_def arrive_def obs_label_def record_all_snoc)
next
  case (slow_start s req)
  then show ?case by (auto simp: sys_inv_def arrive_def)
next
  case (slow_finish s req t r)
  then have "0 < length (in_flight s)" by (metis length_pos_if_in_set)
  with slow_finish show ?case
    by (auto simp: sys_inv_def answer_def obs_label_def record_all_snoc length_remove1
        dest: set_remove1_subset [THEN subsetD])
qed

lemma reach_inv: "reach cd h w0 s \<Longrightarrow> sys_inv s"
proof (induction rule: reach.induct)
  case init
  then show ?case
    by (simp add: sys_inv_def init_sys_def empty_registry_def record_all_def reload_answers_def
        registry_of_phase_def)
next
  case (step s s')
  then show ?case by (blast intro: sys_step_inv)
qed

text \<open>The phases a reachable state can be in, and what start-up did to reach them.\<close>

lemma reach_phase:
  "reach cd h w0 s \<Longrightarrow>
   (phase s = Booting \<longrightarrow> s = init_sys w0) \<and>
   (phase s = Started \<or> phase s = Listening \<or> phase s = ListenFailed \<longrightarrow>
      (\<exists>w. boot cd h (world (init_sys w0)) = Normal w)) \<and>
   (phase s = Listening \<longrightarrow> port_bindable h) \<and> (phase s = ListenFailed \<longrightarrow> \<not> port_bindable h) \<and>
   (phase s = Crashed \<longrightarrow> (\<exists>w. boot cd h (world (init_sys w0)) = Thrown w))"
proof (induction rule: reach.induct)
  case init
  then show ?case by (simp add: init_sys_def)
next
  case (step s s')
  from step.hyps(2) step.IH show ?case
    by (cases rule: sys_step.cases) auto
qed


lemma no_step_listen_failed: "phase s = ListenFailed \<Longrightarrow> \<not> sys_step cd h s s'"
  by (auto elim: sys_step.cases)

text \<open>The example host reaches the listener with the reload request sent and
  unanswered.\<close>

lemma ex_listening:
  "\<exists>s. reach id_codec ex_host (ex_world NoFault) s \<and> phase s = Listening \<and> served s = [] \<and>
     in_flight s = [] \<and> metrics s = app_registry \<and> reload_pending s \<and>
     outbox (world s) = [Post reload_url] \<and> length (console (world s)) = 4"
proof -
  obtain w where b: "boot id_codec ex_host (ex_world NoFault) = Normal w" and o: "outbox w = [Post reload_url]"
    and c: "length (console w) = 3"
    using ex_boot_normal by blast
  let ?s1 = "init_sys (ex_world NoFault)\<lparr>world := w, phase := Started,
      reload_pending := (outbox w \<noteq> outbox (world (init_sys (ex_world NoFault)))),
      metrics := collect_default_metrics (metrics (init_sys (ex_world NoFault)))\<rparr>"
  have iw: "world (init_sys (ex_world NoFault)) = ex_world NoFault" by (simp add: init_sys_def ex_world_def)
  have r1: "reach id_codec ex_host (ex_world NoFault) ?s1"
    by (rule reach.step [OF reach.init sys_step.boot_normal]) (simp add: init_sys_def, simp only: iw b)
  have "reach id_codec ex_host (ex_world NoFault)
      (?s1\<lparr>world := console_log (started_line ex_host) (world ?s1), phase := Listening\<rparr>)"
    by (rule reach.step [OF r1 sys_step.listen]) (simp_all add: ex_host_def)
  then show ?thesis using o c by (auto simp: init_sys_def app_registry_def)
qed

text \<open>A request routed to \<open>/\<close> answered from a listening state.\<close>

lemma serve_root_reach:
  assumes "reach cd h w0 s" and "phase s = Listening" and "route_of req = RootRoute"
  shows "reach cd h w0 (answer req (fst handle_root) 1 (arrive s\<lparr>loki := loki s @ snd handle_root\<rparr>))"
  by (rule reach.step [OF assms(1) sys_step.serve_root]) (simp_all add: assms(2,3))

lemma in_flight_listening:
  assumes "reach cd h w0 s" and "req \<in> set (in_flight s)"
  shows "phase s = Listening"
  using reach_inv [OF assms(1)] assms(2) by (auto simp: sys_inv_def)

text \<open>Express routes a HEAD request to the GET handler of its path: the handler runs, the
  request is counted under method \<open>HEAD\<close>, and \<open>res.send\<close> drops the body.\<close>

lemma head_request_served:
  assumes "phase s = Listening" and "route_of req = MetricsRoute" and "req_method req = ''HEAD''"
    and "0 \<le> t"
  shows "\<exists>s'. sys_step cd h s s' \<and>
           served s' = served s @ [(req, \<lparr>status = 200, body = EmptyBody, content_type = exposition_type\<rparr>, t)] \<and>
           total_req (metrics s') = Suc (total_req (metrics s))"
  using sys_step.serve_metrics [OF assms(1,2,4), of cd h "[]"] assms(3)
  by (auto simp: answer_def arrive_def express_send_def handle_metrics_def observe_request_def)

lemma head_metrics_reachable:
  "\<exists>s. reach id_codec ex_host (ex_world NoFault) s \<and> req_method head_metrics = ''HEAD'' \<and>
     (head_metrics, \<lparr>status = 200, body = EmptyBody, content_type = exposition_type\<rparr>, 1) \<in> set (served s)"
proof -
  obtain s where r: "reach id_codec ex_host (ex_world NoFault) s" and l: "phase s = Listening"
    using ex_listening by blast
  have "route_of head_metrics = MetricsRoute" by (simp add: head_metrics_def route_eval)
  with head_request_served [OF l, of head_metrics 1 id_codec ex_host] obtain s' where
    "sys_step id_codec ex_host s s'"
    "served s' = served s @ [(head_metrics, \<lparr>status = 200, body = EmptyBody, content_type = exposition_type\<rparr>, 1)]"
    by (auto simp: head_metrics_def)
  with r show ?thesis by (auto intro: reach.step simp: head_metrics_def)
qed

text \<open>The server has no \<open>error\<close> listener: when the port cannot be bound the event
  is thrown from the event loop and the process exits, after the registration has
  written its target and requested the reload. The collector is then told to scrape an
  address nobody serves.\<close>

lemma listen_failure_strands_target:
  "\<exists>s. reach id_codec (ex_host\<lparr>port_bindable := False\<rparr>) (ex_world NoFault) s \<and>
     phase s = ListenFailed \<and> (\<forall>s'. \<not> sys_step id_codec (ex_host\<lparr>port_bindable := False\<rparr>) s s') \<and>
     files (world s) ex_path = Some (prom_doc [JStr ''10.0.0.1:8000'', JStr ''10.0.0.2:8000'']) \<and>
     outbox (world s) = [Post reload_url]"
proof -
  let ?h = "ex_host\<lparr>port_bindable := False\<rparr>"
  let ?wi = "ex_world NoFault"
  let ?wb = "\<lparr>files = [ex_path \<mapsto> prom_doc [JStr ''10.0.0.1:8000'', JStr ''10.0.0.2:8000'']],
     write_faults = \<lambda>_. NoFault,
     console = [DetectedTarget ''10.0.0.2:8000'', TargetAdded ''10.0.0.2:8000'', ConfigUpdated],
     outbox = [Post reload_url]\<rparr>"
  have cp: "config_path ?h = ex_path" by (simp add: config_path_def ex_host_def ex_path_def)
  have tg: "target_address (net_ifaces ?h) (env_port ?h) = ''10.0.0.2:8000''" using ex_target by simp
  have iw: "world (init_sys ?wi) = ?wi" by (simp add: init_sys_def ex_world_def)
  have rd: "read_config id_codec ex_path (console_log (DetectedTarget ''10.0.0.2:8000'') ?wi) =
      Some (prom_doc [JStr ''10.0.0.1:8000''])"
    by (simp add: read_config_def id_codec_def ex_world_def)
  have b: "boot id_codec ?h (world (init_sys ?wi)) = Normal ?wb"
    unfolding iw boot_def tg cp Let_def
    by (subst update_prometheus_yml_done [OF rd ex_update])
      (simp add: write_config_def console_log_def send_reload_def ex_world_def)
  let ?s1 = "init_sys ?wi\<lparr>world := ?wb, phase := Started,
      reload_pending := (outbox ?wb \<noteq> outbox (world (init_sys ?wi))),
      metrics := collect_default_metrics (metrics (init_sys ?wi))\<rparr>"
  have r1: "reach id_codec ?h ?wi ?s1"
    by (rule reach.step [OF reach.init sys_step.boot_normal]) (simp add: init_sys_def, rule b)
  have r2: "reach id_codec ?h ?wi (?s1\<lparr>phase := ListenFailed\<rparr>)"
    by (rule reach.step [OF r1 sys_step.listen_error]) simp_all
  with no_step_listen_failed [of "?s1\<lparr>phase := ListenFailed\<rparr>"] show ?thesis by auto
qed

text \<open>The listener is reached exactly when start-up completes normally and the port
  can be bound.\<close>

lemma listening_iff_boot_normal:
  "(\<exists>s. reach cd h w0 s \<and> phase s = Listening) \<longleftrightarrow>
   (\<exists>w. boot cd h (world (init_sys w0)) = Normal w) \<and> port_bindable h"
proof
  assume "\<exists>s. reach cd h w0 s \<and> phase s = Listening"
  then show "(\<exists>w. boot cd h (world (init_sys w0)) = Normal w) \<and> port_bindable h"
    by (blast dest: reach_phase)
next
  assume "(\<exists>w. boot cd h (world (init_sys w0)) = Normal w) \<and> port_bindable h"
  then obtain w where b: "boot cd h (world (init_sys w0)) = Normal w" and pb: "port_bindable h" by blast
  let ?s1 = "init_sys w0\<lparr>world := w, phase := Started,
               reload_pending := (outbox w \<noteq> outbox (world (init_sys w0))),
      metrics := collect_default_metrics (metrics (init_sys w0))\<rparr>"
  have r1: "reach cd h w0 ?s1"
    by (rule reach.step [OF reach.init sys_step.boot_normal]) (simp add: init_sys_def, rule b)
  have "reach cd h w0 (?s1\<lparr>world := console_log (started_line h) (world ?s1), phase := Listening\<rparr>)"
    by (rule reach.step [OF r1 sys_step.listen]) (simp_all add: pb)
  then show "\<exists>s. reach cd h w0 s \<and> phase s = Listening" by fastforce
qed

section \<open>Properties\<close>

text \<open>
  C25. Request accounting: in every reachable state the request counter equals the
  number of answered requests and the sum of the histogram series' counts, and every
  request that arrived is either answered or a \<open>/slow\<close> request still waiting for
  its task.
\<close>

theorem request_accounting:
  assumes "reach cd h w0 s"
  shows "total_req (metrics s) = length (served s) \<and>
         total_req (metrics s) = sum_list (map (\<lambda>le. hcount (snd le)) (req_res_time (metrics s))) \<and>
         arrived s = length (served s) + length (in_flight s) \<and>
         (\<forall>req \<in> set (in_flight s). route_of req = SlowRoute)"
proof -
  from reach_inv [OF assms] have "sys_inv s" .
  with counter_matches_histogram [of "map obs_label (served s)"] show ?thesis by (simp add: sys_inv_def)
qed

theorem request_accounting_witness:
  "\<exists>s. reach id_codec ex_host (ex_world NoFault) s \<and> served s = [(get_root, fst handle_root, 1)] \<and>
     total_req (metrics s) = 1 \<and> arrived s = 1"
proof -
  obtain s where r: "reach id_codec ex_host (ex_world NoFault) s" and l: "phase s = Listening"
    and e: "served s = []" "in_flight s = []"
    using ex_listening by blast
  let ?s = "answer get_root (fst handle_root) 1 (arrive s\<lparr>loki := loki s @ snd handle_root\<rparr>)"
  have r': "reach id_codec ex_host (ex_world NoFault) ?s"
    by (rule serve_root_reach [OF r l]) (simp add: get_root_def route_eval)
  have "served ?s = [(get_root, fst handle_root, 1)]" "in_flight ?s = []" by (simp_all add: e answer_def)
  with request_accounting [OF r'] r' show ?thesis by auto
qed

text \<open>
  C26. The reload is a single best-effort attempt: the process sends at most one
  request, the POST to the reload endpoint, handles at most one answer to it, and is
  waiting for an answer only while none was handled.
\<close>

theorem at_most_one_reload:
  assumes "reach cd h w0 s"
  shows "(outbox (world s) = [] \<or> outbox (world s) = [Post reload_url]) \<and>
         reload_answers (world s) \<le> 1 \<and>
         (reload_pending s \<longleftrightarrow> outbox (world s) = [Post reload_url] \<and> reload_answers (world s) = 0)"
  using reach_inv [OF assms] by (auto simp: sys_inv_def)

theorem at_most_one_reload_witness:
  "\<exists>s. reach id_codec ex_host (ex_world NoFault) s \<and> reload_pending s \<and>
     outbox (world s) = [Post reload_url] \<and> reload_answers (world s) = 0"
proof -
  obtain s where r: "reach id_codec ex_host (ex_world NoFault) s" and p: "reload_pending s"
    using ex_listening by blast
  with at_most_one_reload [OF r] show ?thesis by blast
qed

text \<open>
  C27. The exposition a \<open>/metrics\<close> request receives is the record of exactly the
  requests answered before it: its own request is counted only after its body is built,
  and \<open>/slow\<close> requests still waiting are not counted. This settles the spec's open
  question on whether the metrics request counts itself. The exposition also lists the
  default process metrics with the readings taken at that moment, since start-up
  registered them (line 182).
\<close>

theorem metrics_snapshot_counts_answered:
  assumes "reach cd h w0 s" and "sys_step cd h s s'"
    and "route_of req = MetricsRoute" and "served s' = served s @ [(req, resp, t)]"
  shows "\<exists>ps. resp = express_send req \<lparr>status = 200,
                  body = MetricsText (snapshot (record_all (map obs_label (served s)) app_registry) ps),
                  content_type = exposition_type\<rparr> \<and>
         exp_total_req (snapshot (record_all (map obs_label (served s)) app_registry) ps) = length (served s) \<and>
         exp_process (snapshot (record_all (map obs_label (served s)) app_registry) ps) = ps"
proof -
  from reach_inv [OF assms(1)] have inv: "sys_inv s" .
  from assms(2) obtain ps where resp: "resp = express_send req (handle_metrics (metrics s) ps)" and l: "phase s = Listening"
  proof cases
    case (serve_root req' t')
    with assms(3,4) show ?thesis by (simp add: answer_def arrive_def)
  next
    case (serve_metrics req' t' ps)
    with assms(4) show ?thesis by (auto simp: answer_def arrive_def intro: that)
  next
    case (serve_unrouted req' t')
    with assms(3,4) show ?thesis by (simp add: answer_def arrive_def)
  next
    case (slow_finish req' t' r)
    with inv assms(3,4) show ?thesis by (auto simp: answer_def sys_inv_def)
  qed (use assms(4) in \<open>auto simp: arrive_def console_log_def\<close>)
  with inv record_all_empty [of "map obs_label (served s)"] show ?thesis
    by (auto simp: sys_inv_def handle_metrics_def snapshot_def registry_of_phase_def app_registry_def)
qed


text \<open>
  C29. The listener is reached exactly when the port can be bound and the document
  mutation does not throw on the configuration read at start-up: every other failure
  (missing or unparsable file, missing scrape list or job, failed write) is logged and
  start-up goes on to \<open>app.listen\<close>, but a throw kills the process first. The spec
  requires the listener to start whatever the registration does.
\<close>

theorem listener_reached_iff:
  "(\<exists>s. reach cd h w0 s \<and> phase s = Listening) \<longleftrightarrow>
   port_bindable h \<and>
   \<not> (\<exists>d. read_config cd (config_path h) (world (init_sys w0)) = Some d \<and>
          update_config (target_address (net_ifaces h) (env_port h)) d = MThrow)"
proof -
  have "(\<exists>w. boot cd h (world (init_sys w0)) = Normal w) \<longleftrightarrow>
      \<not> (\<exists>w. boot cd h (world (init_sys w0)) = Thrown w)"
    using completion_cases [of "boot cd h (world (init_sys w0))"] by auto
  with listening_iff_boot_normal [of cd h w0] boot_throws_iff [of cd h "world (init_sys w0)"]
  show ?thesis by blast
qed

theorem listener_reached_iff_witness:
  "\<exists>s. reach id_codec ex_host (ex_world NoFault) s \<and> phase s = Listening"
proof -
  have cp: "config_path ex_host = ex_path" by (simp add: config_path_def ex_host_def ex_path_def)
  have "world (init_sys (ex_world NoFault)) = ex_world NoFault" by (simp add: init_sys_def ex_world_def)
  then have "\<not> (\<exists>d. read_config id_codec (config_path ex_host) (world (init_sys (ex_world NoFault))) = Some d \<and>
          update_config (target_address (net_ifaces ex_host) (env_port ex_host)) d = MThrow)"
    by (simp add: cp ex_target)
  moreover have "port_bindable ex_host" by (simp add: ex_host_def)
  ultimately show ?thesis using listener_reached_iff by blast
qed


theorem metrics_snapshot_counts_answered_witness:
  "\<exists>s s' resp. reach id_codec ex_host (ex_world NoFault) s \<and> sys_step id_codec ex_host s s' \<and>
     served s' = served s @ [(get_metrics, resp, 1)] \<and>
     exp_process (snapshot (record_all (map obs_label (served s)) app_registry)
       [(''process_cpu_seconds_total'', 1 / 10)]) = [(''process_cpu_seconds_total'', 1 / 10)] \<and>
     (\<exists>ps. exp_total_req (snapshot (record_all (map obs_label (served s)) app_registry) ps) = length (served s))"
proof -
  let ?ps = "[(''process_cpu_seconds_total'', 1 / 10 :: rat)]"
  obtain s where r: "reach id_codec ex_host (ex_world NoFault) s" and l: "phase s = Listening"
    using ex_listening by blast
  have m: "route_of get_metrics = MetricsRoute" by (simp add: get_metrics_def route_eval)
  have step: "sys_step id_codec ex_host s (answer get_metrics (handle_metrics (metrics s) ?ps) 1 (arrive s))"
    by (rule sys_step.serve_metrics) (simp_all add: l m)
  have "served (answer get_metrics (handle_metrics (metrics s) ?ps) 1 (arrive s)) =
      served s @ [(get_metrics, handle_metrics (metrics s) ?ps, 1)]"
    by (simp add: answer_def)
  from metrics_snapshot_counts_answered [OF r step m this] obtain ps where
    "exp_total_req (snapshot (record_all (map obs_label (served s)) app_registry) ps) = length (served s)"
    by blast
  moreover have "exp_process (snapshot (record_all (map obs_label (served s)) app_registry) ?ps) = ?ps"
    by (simp add: snapshot_def app_registry_def)
  ultimately show ?thesis using r step \<open>served (answer _ _ 1 (arrive s)) = _\<close> by blast
qed


text \<open>
  C31. The histogram's \<open>route\<close> label is the raw \<open>req.url\<close>, query string
  included: in every reachable state the registry holds one series per distinct
  triple of method, raw URL and status among the answered requests. Requests to the
  same route with different query strings (\<open>/?a=1\<close>, \<open>/?a=2\<close>) fall in
  different series, and the number of series grows with every new URL a client sends,
  where the spec keys the latency histogram by route.
\<close>

theorem route_label_is_raw_url:
  assumes "reach cd h w0 s"
  shows "length (req_res_time (metrics s)) =
         card ((\<lambda>(req, resp, t). (req_method req, req_url req, status resp)) ` set (served s))"
proof -
  let ?lab = "\<lambda>(m, u, c). \<lparr>lbl_method = m, lbl_route = u, lbl_status = c\<rparr>"
  let ?key = "\<lambda>(req :: http_req, resp :: http_resp, t :: rat). (req_method req, req_url req, status resp)"
  have img: "fst ` set (map obs_label (served s)) = ?lab ` (?key ` set (served s))"
    by (force simp: obs_label_def image_image split: prod.splits)
  have inj: "inj ?lab" by (auto simp: inj_def)
  from reach_inv [OF assms] have "req_res_time (metrics s) =
      req_res_time (record_all (map obs_label (served s)) empty_registry)"
    by (simp add: sys_inv_def)
  with series_count [of "map obs_label (served s)"] img card_image [OF inj_on_subset [OF inj subset_UNIV]]
  show ?thesis by simp
qed

theorem route_label_is_raw_url_witness:
  "\<exists>s. reach id_codec ex_host (ex_world NoFault) s \<and>
     map (\<lambda>x. req_url (fst x)) (served s) = [''/?a=1'', ''/?a=2''] \<and>
     (\<forall>x \<in> set (served s). route_of (fst x) = RootRoute) \<and> length (req_res_time (metrics s)) = 2"
proof -
  obtain s where r: "reach id_codec ex_host (ex_world NoFault) s" and l: "phase s = Listening"
    and e: "served s = []"
    using ex_listening by blast
  let ?q1 = "\<lparr>req_method = ''GET'', req_url = ''/?a=1''\<rparr>"
  let ?q2 = "\<lparr>req_method = ''GET'', req_url = ''/?a=2''\<rparr>"
  have q1: "route_of ?q1 = RootRoute" and q2: "route_of ?q2 = RootRoute" by (simp_all add: route_eval)
  define s1 where "s1 = answer ?q1 (fst handle_root) 1 (arrive s\<lparr>loki := loki s @ snd handle_root\<rparr>)"
  have r1: "reach id_codec ex_host (ex_world NoFault) s1"
    unfolding s1_def by (rule serve_root_reach [OF r l q1])
  define s2 where "s2 = answer ?q2 (fst handle_root) 1 (arrive s1\<lparr>loki := loki s1 @ snd handle_root\<rparr>)"
  have r2: "reach id_codec ex_host (ex_world NoFault) s2"
    unfolding s2_def by (rule serve_root_reach [OF r1 _ q2]) (simp add: s1_def l)
  have sv: "served s2 = [(?q1, fst handle_root, 1), (?q2, fst handle_root, 1)]"
    by (simp add: s2_def s1_def e answer_def)
  have "length (req_res_time (metrics s2)) = 2"
    using route_label_is_raw_url [OF r2] by (simp add: sv)
  with r2 sv q1 q2 show ?thesis by auto
qed

text \<open>
  C34. Serving never stops the server: from a listening state every step, including a
  \<open>/slow\<close> request whose task fails and a reload error, leads to a listening state.
\<close>

theorem listening_is_stable:
  assumes "reach cd h w0 s" and "phase s = Listening" and "sys_step cd h s s'"
  shows "phase s' = Listening"
  using assms(3,2) by cases (auto simp: answer_def arrive_def)

theorem listening_is_stable_witness:
  "\<exists>s s'. reach id_codec ex_host (ex_world NoFault) s \<and> phase s = Listening \<and>
     sys_step id_codec ex_host s s' \<and> phase s' = Listening"
proof -
  obtain s where r: "reach id_codec ex_host (ex_world NoFault) s" and l: "phase s = Listening"
    using ex_listening by blast
  have st: "sys_step id_codec ex_host s (answer get_root (fst handle_root) 1 (arrive s\<lparr>loki := loki s @ snd handle_root\<rparr>))"
    by (rule sys_step.serve_root) (simp_all add: l get_root_def route_eval)
  with listening_is_stable [OF r l st] r l show ?thesis by blast
qed

text \<open>
  C35. Every \<open>/slow\<close> request that is waiting can complete, with either outcome of
  the heavy task: the completion is a step of the service, its answer is recorded and
  the request counter grows by one.
\<close>

theorem slow_request_completes:
  assumes "reach cd h w0 s" and "req \<in> set (in_flight s)" and "0 \<le> t"
  shows "\<exists>s'. sys_step cd h s s' \<and> reach cd h w0 s' \<and>
           served s' = served s @ [(req, express_send req (fst (slow_response r)), t)] \<and>
           total_req (metrics s') = Suc (total_req (metrics s)) \<and>
           in_flight s' = remove1 req (in_flight s)"
proof -
  let ?s' = "answer req (fst (slow_response r)) t
               (s\<lparr>in_flight := remove1 req (in_flight s), loki := loki s @ snd (slow_response r)\<rparr>)"
  have st: "sys_step cd h s ?s'"
    by (rule sys_step.slow_finish [OF in_flight_listening [OF assms(1,2)] assms(2,3)])
  with assms(1) show ?thesis by (auto intro: reach.step simp: answer_def observe_request_def)
qed

theorem slow_request_completes_witness:
  "\<exists>s s'. reach id_codec ex_host (ex_world NoFault) s \<and>
     in_flight s = [\<lparr>req_method = ''GET'', req_url = ''/slow''\<rparr>] \<and>
     sys_step id_codec ex_host s s' \<and> served s' = [(\<lparr>req_method = ''GET'', req_url = ''/slow''\<rparr>,
       \<lparr>status = 500, body = JsonBody (JObj [(''status'', JStr ''Error''), (''error'', JStr ''Internal Server Error'')]),
        content_type = json_type\<rparr>, 7)] \<and>
     total_req (metrics s') = 1"
proof -
  let ?q = "\<lparr>req_method = ''GET'', req_url = ''/slow''\<rparr>"
  obtain s where r: "reach id_codec ex_host (ex_world NoFault) s" and l: "phase s = Listening"
    and e: "served s = []" "in_flight s = []" "metrics s = app_registry"
    using ex_listening by blast
  let ?s1 = "arrive s\<lparr>in_flight := in_flight s @ [?q], loki := loki s @ [LokiInfo ''Req came on /slow router'']\<rparr>"
  have r1: "reach id_codec ex_host (ex_world NoFault) ?s1"
    by (rule reach.step [OF r sys_step.slow_start]) (simp_all add: l route_eval)
  have q: "?q \<in> set (in_flight ?s1)" and f: "in_flight ?s1 = [?q]" by (simp_all add: e)
  from slow_request_completes [OF r1 q, of 7 "TaskFailed ''boom''"] obtain s' where
    "sys_step id_codec ex_host ?s1 s'" "served s' = served ?s1 @ [(?q, fst (slow_response (TaskFailed ''boom'')), 7)]"
    "total_req (metrics s') = Suc (total_req (metrics ?s1))"
    by auto
  with r1 f e show ?thesis by (auto simp: slow_response_def empty_registry_def)
qed

end
