(* ===== verification/Spec2Isabelle.thy ===== *)
theory Spec2Isabelle
  imports ServiceRuns
begin

text \<open>
  Verification of the self-registering Express service of \<open>src/index.js\<close>.

  \<^bold>\<open>The program.\<close> At start-up the module (1) picks the instance's address
  (\<open>getExternalIPv4\<close>, lines 93--107), (2) registers it in the scrape-target list of
  \<open>prometheus.yml\<close> (\<open>updatePrometheusYML\<close>, lines 113--153), (3) asks Prometheus to
  reload (lines 154--161), then builds the metrics registry and the Express app (lines
  166--232) and listens (lines 234--236). From then on the event loop delivers, in any
  order, the listening callback, the answer or the error of the reload request, and
  HTTP requests to three routes; every response runs the \<open>response-time\<close> callback
  that increments \<open>total_req\<close> and observes the latency histogram.

  \<^bold>\<open>Theories and what they model.\<close>
  \<^item> \<open>Prelude\<close>: insertion-ordered tables (\<open>assoc_set\<close>, the order of a JavaScript
    object's keys), decimal numerals and canonical array index keys (\<open>dec_string\<close>,
    \<open>index_key\<close>), and the \<open>model_simps\<close> collection the component proofs share.
  \<^item> \<open>JsValue\<close>: the values js-yaml loads and dumps (\<open>jval\<close>) with JavaScript's
    property read and write (\<open>js_get\<close>: \<open>None\<close> is a \<open>TypeError\<close>; \<open>js_set\<close>:
    ignored on primitives, named properties of arrays dropped as \<open>yaml.dump\<close> drops
    them), truthiness, \<open>String(v)\<close> and \<open>Array.prototype.find\<close> with a callback
    that may throw (\<open>js_find\<close>), which equals \<open>List.find\<close> when the
    callback cannot throw (C36) and throws exactly at a throwing entry before any match
    (C37).
  \<^item> \<open>ConfigMutator\<close>: lines 122--145 as \<open>update_config\<close>, one definition per
    step (\<open>is_prometheus_job\<close>, \<open>ensure_static_configs\<close>, \<open>group_targets\<close>,
    \<open>add_target\<close>, \<open>register_in_job\<close>), with the source's three completions
    (\<open>MThrow\<close>, \<open>MReturn\<close> for the early returns, \<open>MDone\<close>). A schema
    \<open>wf_doc\<close> and an abstraction \<open>doc_abs\<close> to job/target lists give the contract:
    \<open>update_config\<close> refines the abstract \<open>register_abs\<close> (C5), preserves the schema
    (C6), is idempotent on every document (C1), touches nothing but the job it found
    (C4); C20 and C21 are the paths where the code crashes or loses the write.
  \<^item> \<open>Address\<close>: \<open>getExternalIPv4\<close> as two nested scans with early return, equal to
    a search of the flattened table (C9, C10), and the target string (C11).
  \<^item> \<open>Registration\<close>: \<open>updatePrometheusYML\<close> over an explicit \<open>world\<close> record
    (files, per-path write faults, console, outgoing requests); js-yaml is the codec
    interface \<open>'c codec\<close>, with \<open>codec_roundtrip\<close> assumed only where a claim needs
    it (C19). \<open>boot\<close> is the module's top level up to \<open>app.listen\<close> and returns a
    \<open>completion\<close>: \<open>Thrown\<close> for an uncaught exception (C13--C19); on a
    well-formed document it never throws (C12). The spec's \<open>registerTarget\<close>
    contract (sections 4.2, 4.4, 7) is \<open>register_target_contract\<close>, over the file
    before and after, the \<open>config_error + unit\<close> result the console reports
    (\<open>registration_result\<close>) and the reload: a completed run meets it exactly
    when its result is not \<open>ConfigWriteFailed\<close> (C33).
    C32 runs two instances' reads and writes interleaved on the shared file.
  \<^item> \<open>Metrics\<close>: the registry of lines 184--194 and the observer of lines 196--205,
    with prom-client's histogram semantics (\<open>find_bound\<close>, non-cumulative counts,
    cumulative exposition \<open>snapshot\<close>): C22, C23. \<open>collectDefaultMetrics\<close>
    (line 182) switches on the process metrics of the registry \<open>app_registry\<close>; their
    values are the samples \<open>process_sample\<close> passed to \<open>snapshot\<close>.
  \<^item> \<open>Http\<close>: Express routing (\<open>route_of\<close>: GET and HEAD, query ignored, case
    folded, one trailing slash), the handlers of lines 207--232 and the 404 (C24;
    \<open>route_of_ignores_query\<close>),
    each with its \<open>Content-Type\<close>, and \<open>res.send\<close> (\<open>express_send\<close>), which
    drops the body of a HEAD answer.
  \<^item> \<open>Service\<close>: the process as the inductive step relation \<open>sys_step\<close>: start-up
    (normal or thrown), \<open>listen\<close> or, on a host whose port cannot be bound
    (\<open>port_bindable\<close>), the server's unhandled \<open>error\<close> event that ends the
    process (\<open>ListenFailed\<close>), the two reload callbacks, and requests, where a
    \<open>/slow\<close> request is a start step and a finish step with any steps between.
    \<open>reach\<close> is reachability from a given initial world; \<open>sys_inv\<close> holds in every
    reachable state by rule induction (\<open>reach_inv\<close>), and C25--C31 follow;
    C34 (the listener never stops) and C35 (every waiting \<open>/slow\<close> request can
    complete) are about single steps from reachable states.
  \<^item> \<open>ServiceRuns\<close>: whole runs. The owed work \<open>owed\<close> (start-up, the
    listening callback, the reload answer, waiting \<open>/slow\<close> requests) falls with every
    step that is not a new request, so such steps are well founded and end only in a
    \<open>quiescent\<close> state (C38); the console output is bounded (C39, by a second
    invariant proved by rule induction); every answer meets \<open>spec_response\<close>, the
    spec's HTTP surface written independently of the handlers, a HEAD answer being the
    GET answer of its route without a body (C40).

  \<^bold>\<open>Bounds and parameters.\<close> There is no fuel: every loop of the source is a
  structural recursion over a list (interfaces, scrape jobs, targets, buckets), so every
  definition is total. Latencies are rationals (milliseconds); the duration of the
  heavy task and its failure are the parameter \<open>task_outcome\<close> of the finish step,
  since \<open>./util\<close> is not part of the sources. Interleavings are unbounded: claims
  about the service range over every reachable state. Termination (C38) needs no
  bound on run length: the measure \<open>owed\<close> is at most 3 + 1 + the number of waiting
  requests, and every step that is not an arrival lowers it. The \<open>/metrics\<close>
  handler is one step: \<open>register.metrics()\<close> only awaits promises, which settle
  within the same turn of the event loop, so no other callback runs before it sends.

  \<^bold>\<open>Not modelled.\<close> The YAML text format (the codec is an interface); the Loki
  transport (only the lines handed to the logger are recorded); the values of the
  default process metrics, which are read from the operating system (they are a
  parameter of the \<open>/metrics\<close> step); the text
  encoding of the exposition, which is prom-client's output format and not code of the
  repository (the model keeps the registry's content, \<open>snapshot\<close>); response headers
  other than \<open>Content-Type\<close>; why a port cannot be bound (the host says whether it
  can);
  the commented-out first version in lines 1--77, and the \<open>require\<close> lines 78--88.

  \<^bold>\<open>Findings.\<close> Start-up crashes before \<open>listen\<close> on an empty configuration
  (C14) or a \<open>null\<close> job entry (C20), though the spec requires the listener to start
  regardless (C29), and a port that cannot be bound kills the process after the target
  was registered and the reload requested (\<open>listen_failure_strands_target\<close>);
  a failed write still triggers the reload (C15) and a partial
  write is left in place (C18); two instances starting together can lose a target
  (C32); a target group written as a YAML sequence never
  persists the target (C21); the histogram's route label is the raw URL (C31); a
  \<open>/metrics\<close> response does not count itself (C27, C30); a HEAD request runs the
  GET handler, including the heavy task of \<open>/slow\<close>, and is counted under method
  \<open>HEAD\<close> (\<open>head_request_served\<close>), which the spec does not mention.

  Counters are natural numbers: \<open>total_req\<close> is a JavaScript number, exact up to
  \<open>2^53\<close> increments, far beyond any run of the service.
\<close>

end
